theory Spec2Isabelle
  imports Complex_Main
begin

section \<open>The resilient call primitive: \<open>retry_github_request\<close>\<close>

text \<open>
  The two copies of \<open>retry_github_request\<close> under \<open>src/\<close> are embedded one by one:
  \<open>mcp-server-1/tools/utils.py\<close> (suffix \<open>_s1\<close>) and \<open>mcp-server-6/tools/utils.py\<close>
  (suffix \<open>_s6\<close>).

  What the function does beyond returning a value is written into an event trace: taking a
  permit from \<open>GITHUB_RATE_LIMITER\<close>, the HTTP request, \<open>asyncio.sleep\<close>, and the
  \<open>ctx.info\<close> notifications. The texts of the notifications are kept as the data they are
  formatted from. The upstream is a function from the attempt index to what
  \<open>client.request\<close> does at that attempt: every iteration of the loop sends exactly one
  request, as its first action.

  Of a response the model keeps what the function reads: the status code and the
  \<open>X-RateLimit-Remaining\<close> header. The header is missing, or a text that \<open>int()\<close> parses,
  or a text on which \<open>int()\<close> raises \<open>ValueError\<close>.
\<close>

datatype quota_header = Absent | Numeric int | Garbled

record response =
  status_code :: int
  rate_limit_remaining :: quota_header

text \<open>
  The exceptions of the two modules. A \<open>ValueError\<close> carries what its message says; the
  generic \<open>HTTPStatusError\<close> raised after the loop has no response.
\<close>

datatype message =
    InvalidLiteral
  | MissingEnvVars "string list"
  | TooFewRepositories
  | TooManyRepositories
  | MissingOwnerOrRepo
  | EmptySequence

datatype exc =
    HTTPStatusError "response option"
  | TimeoutException
  | NetworkError
  | ValueError message
  | AttributeError
  | IndexError
  | OverflowError

datatype reply = Answers response | TimesOut | NetworkFails

datatype fastmcp_context = Context

datatype notice =
    QuotaLow int
  | StatusRetry int nat int real
  | HttpErrorRetry int nat int real
  | NetworkRetry nat int real
  | PlainRetry nat int real

datatype event = AcquirePermit | HttpRequest | Sleep real | CtxInfo notice

datatype outcome = Returned response | Raised exc

datatype signal = Continue | Return response | Raise exc

definition MAX_RETRIES :: int where
  "MAX_RETRIES = 3"

definition RETRY_DELAY_BASE :: real where
  "RETRY_DELAY_BASE = 1.0"

definition RETRYABLE_STATUS_CODES :: "int set" where
  "RETRYABLE_STATUS_CODES = {429, 500, 502, 503, 504}"

text \<open>
  \<open>response.raise_for_status()\<close> of httpx: returns on a 2xx status and raises
  \<open>HTTPStatusError\<close>, carrying the response, on any other. \<open>None\<close> is the normal return.
\<close>

definition raise_for_status :: "response \<Rightarrow> exc option" where
  "raise_for_status r =
     (if 200 \<le> status_code r \<and> status_code r \<le> 299 then None
      else Some (HTTPStatusError (Some r)))"

text \<open>
  \<open>delay = RETRY_DELAY_BASE * (2 ** attempt)\<close>. The power is an integer, and the product
  with the float \<open>1.0\<close> converts it to a float: up to \<open>2 ** 1023\<close> the result is that
  power of two, exactly; from \<open>2 ** 1024\<close> on the conversion raises \<open>OverflowError\<close>.
\<close>

definition backoff_delay :: "nat \<Rightarrow> exc + real" where
  "backoff_delay attempt =
     (if attempt < 1024 then Inr (RETRY_DELAY_BASE * 2 ^ attempt) else Inl OverflowError)"

text \<open>
  \<open>if ctx: await ctx.info(...)\<close>. Sending a notification is taken to return normally: it
  adds the notice to the trace and nothing else.
\<close>

definition info :: "fastmcp_context option \<Rightarrow> notice \<Rightarrow> event list" where
  "info ctx n = (case ctx of None \<Rightarrow> [] | Some c \<Rightarrow> [CtxInfo n])"

text \<open>
  \<open>async with GITHUB_RATE_LIMITER: response = await client.request(method, url, **kwargs)\<close>
\<close>

definition limited_request :: "event list" where
  "limited_request = [AcquirePermit, HttpRequest]"

text \<open>The code after the loop, shared by both copies.\<close>

definition after_loop :: "exc option \<Rightarrow> outcome" where
  "after_loop last_exception =
     (case last_exception of
        Some e \<Rightarrow> Raised e
      | None \<Rightarrow> Raised (HTTPStatusError None))"

definition prepend :: "event list \<Rightarrow> outcome \<times> event list \<Rightarrow> outcome \<times> event list" where
  "prepend evs res = (fst res, evs @ snd res)"

subsection \<open>mcp-server-1\<close>

text \<open>
  Lines 243 to 247: the header is parsed whenever it is present, before \<open>ctx\<close> is looked at.
\<close>

definition quota_check_s1 :: "fastmcp_context option \<Rightarrow> response \<Rightarrow> exc + event list" where
  "quota_check_s1 ctx r =
     (case rate_limit_remaining r of
        Absent \<Rightarrow> Inr []
      | Garbled \<Rightarrow> Inl (ValueError InvalidLiteral)
      | Numeric remaining \<Rightarrow>
          Inr (if remaining < 100 then info ctx (QuotaLow remaining) else []))"

text \<open>\<open>response.raise_for_status(); return response\<close>, the end of both \<open>try\<close> blocks.\<close>

definition raise_or_return :: "response \<Rightarrow> signal" where
  "raise_or_return r = (case raise_for_status r of Some e \<Rightarrow> Raise e | None \<Rightarrow> Return r)"

text \<open>The body of the \<open>try\<close> block (lines 239 to 269).\<close>

definition try_body_s1 ::
  "fastmcp_context option \<Rightarrow> int \<Rightarrow> nat \<Rightarrow> reply \<Rightarrow> signal \<times> event list" where
  "try_body_s1 ctx max_retries attempt rep =
     (case rep of
        TimesOut \<Rightarrow> (Raise TimeoutException, limited_request)
      | NetworkFails \<Rightarrow> (Raise NetworkError, limited_request)
      | Answers r \<Rightarrow>
          (case quota_check_s1 ctx r of
             Inl e \<Rightarrow> (Raise e, limited_request)
           | Inr notes \<Rightarrow>
               if status_code r \<in> RETRYABLE_STATUS_CODES then
                 if int attempt < max_retries - 1 then
                   (case backoff_delay attempt of
                      Inl e \<Rightarrow> (Raise e, limited_request @ notes)
                    | Inr delay \<Rightarrow>
                        (Continue,
                         limited_request @ notes
                           @ info ctx (StatusRetry (status_code r) (attempt + 1) max_retries delay)
                           @ [Sleep delay]))
                 else
                   (case raise_for_status r of
                      Some e \<Rightarrow> (Raise e, limited_request @ notes)
                    | None \<Rightarrow> (raise_or_return r, limited_request @ notes))
               else (raise_or_return r, limited_request @ notes)))"

text \<open>
  The \<open>except\<close> clauses (lines 271 to 296). The result is the signal that leaves the
  iteration, the value of \<open>last_exception\<close>, and the events of the handler. An
  \<open>OverflowError\<close> of the delay, raised in the \<open>try\<close> block or in a handler, is caught by
  no clause and leaves the function.
\<close>

definition handlers_s1 ::
  "fastmcp_context option \<Rightarrow> int \<Rightarrow> nat \<Rightarrow> exc option \<Rightarrow> signal \<Rightarrow>
     signal \<times> exc option \<times> event list" where
  "handlers_s1 ctx max_retries attempt last_exception sig =
     (case sig of
        Raise (HTTPStatusError None) \<Rightarrow>
          (Raise AttributeError, Some (HTTPStatusError None), [])
      | Raise (HTTPStatusError (Some r)) \<Rightarrow>
          if status_code r \<in> RETRYABLE_STATUS_CODES then
            if int attempt < max_retries - 1 then
              (case backoff_delay attempt of
                 Inl e \<Rightarrow> (Raise e, Some (HTTPStatusError (Some r)), [])
               | Inr delay \<Rightarrow>
                   (Continue, Some (HTTPStatusError (Some r)),
                    info ctx (HttpErrorRetry (status_code r) (attempt + 1) max_retries delay)
                      @ [Sleep delay]))
            else (Raise (HTTPStatusError (Some r)), Some (HTTPStatusError (Some r)), [])
          else (Raise (HTTPStatusError (Some r)), Some (HTTPStatusError (Some r)), [])
      | Raise TimeoutException \<Rightarrow>
          if int attempt < max_retries - 1 then
            (case backoff_delay attempt of
               Inl e \<Rightarrow> (Raise e, Some TimeoutException, [])
             | Inr delay \<Rightarrow>
                 (Continue, Some TimeoutException,
                  info ctx (NetworkRetry (attempt + 1) max_retries delay) @ [Sleep delay]))
          else (Raise TimeoutException, Some TimeoutException, [])
      | Raise NetworkError \<Rightarrow>
          if int attempt < max_retries - 1 then
            (case backoff_delay attempt of
               Inl e \<Rightarrow> (Raise e, Some NetworkError, [])
             | Inr delay \<Rightarrow>
                 (Continue, Some NetworkError,
                  info ctx (NetworkRetry (attempt + 1) max_retries delay) @ [Sleep delay]))
          else (Raise NetworkError, Some NetworkError, [])
      | other \<Rightarrow> (other, last_exception, []))"

definition iteration_s1 ::
  "fastmcp_context option \<Rightarrow> int \<Rightarrow> nat \<Rightarrow> exc option \<Rightarrow> reply \<Rightarrow>
     signal \<times> exc option \<times> event list" where
  "iteration_s1 ctx max_retries attempt last_exception rep =
     (case try_body_s1 ctx max_retries attempt rep of
        (sig, evs) \<Rightarrow>
          (case handlers_s1 ctx max_retries attempt last_exception sig of
             (sig', last', evs') \<Rightarrow> (sig', last', evs @ evs')))"

text \<open>\<open>for attempt in range(max_retries)\<close>, from any loop state, and the code after it.\<close>

function attempts_s1 ::
  "fastmcp_context option \<Rightarrow> int \<Rightarrow> (nat \<Rightarrow> reply) \<Rightarrow> nat \<Rightarrow> exc option \<Rightarrow>
     outcome \<times> event list" where
  "attempts_s1 ctx max_retries upstream attempt last_exception =
     (if int attempt < max_retries then
        (case iteration_s1 ctx max_retries attempt last_exception (upstream attempt) of
           (Continue, last', evs) \<Rightarrow>
             prepend evs (attempts_s1 ctx max_retries upstream (Suc attempt) last')
         | (Return r, last', evs) \<Rightarrow> (Returned r, evs)
         | (Raise e, last', evs) \<Rightarrow> (Raised e, evs))
      else (after_loop last_exception, []))"
  by pat_completeness auto
termination
  by (relation "measure (\<lambda>(ctx, max_retries, upstream, attempt, last_exception).
        nat (max_retries - int attempt))") auto

definition retry_github_request_s1 ::
  "fastmcp_context option \<Rightarrow> int \<Rightarrow> (nat \<Rightarrow> reply) \<Rightarrow> outcome \<times> event list" where
  "retry_github_request_s1 ctx max_retries upstream =
     attempts_s1 ctx max_retries upstream 0 None"

subsection \<open>mcp-server-6\<close>

text \<open>
  Lines 60 to 63: \<open>int(response.headers.get("X-RateLimit-Remaining", 0))\<close>, so a missing
  header counts as 0 remaining.
\<close>

definition quota_check_s6 :: "fastmcp_context option \<Rightarrow> response \<Rightarrow> exc + event list" where
  "quota_check_s6 ctx r =
     (case (case rate_limit_remaining r of
              Absent \<Rightarrow> Inr 0
            | Garbled \<Rightarrow> Inl (ValueError InvalidLiteral)
            | Numeric n \<Rightarrow> Inr n) of
        Inl e \<Rightarrow> Inl e
      | Inr remaining \<Rightarrow>
          Inr (if remaining < 10 then info ctx (QuotaLow remaining) else []))"

definition try_body_s6 ::
  "fastmcp_context option \<Rightarrow> int \<Rightarrow> nat \<Rightarrow> reply \<Rightarrow> signal \<times> event list" where
  "try_body_s6 ctx max_retries attempt rep =
     (case rep of
        TimesOut \<Rightarrow> (Raise TimeoutException, limited_request)
      | NetworkFails \<Rightarrow> (Raise NetworkError, limited_request)
      | Answers r \<Rightarrow>
          (case quota_check_s6 ctx r of
             Inl e \<Rightarrow> (Raise e, limited_request)
           | Inr notes \<Rightarrow>
               if status_code r \<in> RETRYABLE_STATUS_CODES then
                 if int attempt < max_retries - 1 then
                   (case backoff_delay attempt of
                      Inl e \<Rightarrow> (Raise e, limited_request @ notes)
                    | Inr delay \<Rightarrow>
                        (Continue,
                         limited_request @ notes
                           @ info ctx (PlainRetry (attempt + 1) max_retries delay)
                           @ [Sleep delay]))
                 else (raise_or_return r, limited_request @ notes)
               else (raise_or_return r, limited_request @ notes)))"

text \<open>
  The body of the \<open>try\<close> block (lines 57 to 75) is \<open>try_body_s6\<close> above. The
  \<open>except\<close> clauses (lines 77 to 94): \<open>last_exception\<close> is assigned only on the way
  to \<open>continue\<close>.
\<close>

definition handlers_s6 ::
  "fastmcp_context option \<Rightarrow> int \<Rightarrow> nat \<Rightarrow> exc option \<Rightarrow> signal \<Rightarrow>
     signal \<times> exc option \<times> event list" where
  "handlers_s6 ctx max_retries attempt last_exception sig =
     (case sig of
        Raise (HTTPStatusError None) \<Rightarrow> (Raise AttributeError, last_exception, [])
      | Raise (HTTPStatusError (Some r)) \<Rightarrow>
          if status_code r \<in> RETRYABLE_STATUS_CODES \<and> int attempt < max_retries - 1 then
            (case backoff_delay attempt of
               Inl e \<Rightarrow> (Raise e, last_exception, [])
             | Inr delay \<Rightarrow>
                 (Continue, Some (HTTPStatusError (Some r)),
                  info ctx (PlainRetry (attempt + 1) max_retries delay) @ [Sleep delay]))
          else (Raise (HTTPStatusError (Some r)), last_exception, [])
      | Raise TimeoutException \<Rightarrow>
          if int attempt < max_retries - 1 then
            (case backoff_delay attempt of
               Inl e \<Rightarrow> (Raise e, last_exception, [])
             | Inr delay \<Rightarrow>
                 (Continue, Some TimeoutException,
                  info ctx (PlainRetry (attempt + 1) max_retries delay) @ [Sleep delay]))
          else (Raise TimeoutException, last_exception, [])
      | Raise NetworkError \<Rightarrow>
          if int attempt < max_retries - 1 then
            (case backoff_delay attempt of
               Inl e \<Rightarrow> (Raise e, last_exception, [])
             | Inr delay \<Rightarrow>
                 (Continue, Some NetworkError,
                  info ctx (PlainRetry (attempt + 1) max_retries delay) @ [Sleep delay]))
          else (Raise NetworkError, last_exception, [])
      | other \<Rightarrow> (other, last_exception, []))"

definition iteration_s6 ::
  "fastmcp_context option \<Rightarrow> int \<Rightarrow> nat \<Rightarrow> exc option \<Rightarrow> reply \<Rightarrow>
     signal \<times> exc option \<times> event list" where
  "iteration_s6 ctx max_retries attempt last_exception rep =
     (case try_body_s6 ctx max_retries attempt rep of
        (sig, evs) \<Rightarrow>
          (case handlers_s6 ctx max_retries attempt last_exception sig of
             (sig', last', evs') \<Rightarrow> (sig', last', evs @ evs')))"

function attempts_s6 ::
  "fastmcp_context option \<Rightarrow> int \<Rightarrow> (nat \<Rightarrow> reply) \<Rightarrow> nat \<Rightarrow> exc option \<Rightarrow>
     outcome \<times> event list" where
  "attempts_s6 ctx max_retries upstream attempt last_exception =
     (if int attempt < max_retries then
        (case iteration_s6 ctx max_retries attempt last_exception (upstream attempt) of
           (Continue, last', evs) \<Rightarrow>
             prepend evs (attempts_s6 ctx max_retries upstream (Suc attempt) last')
         | (Return r, last', evs) \<Rightarrow> (Returned r, evs)
         | (Raise e, last', evs) \<Rightarrow> (Raised e, evs))
      else (after_loop last_exception, []))"
  by pat_completeness auto
termination
  by (relation "measure (\<lambda>(ctx, max_retries, upstream, attempt, last_exception).
        nat (max_retries - int attempt))") auto

definition retry_github_request_s6 ::
  "fastmcp_context option \<Rightarrow> int \<Rightarrow> (nat \<Rightarrow> reply) \<Rightarrow> outcome \<times> event list" where
  "retry_github_request_s6 ctx max_retries upstream =
     attempts_s6 ctx max_retries upstream 0 None"

subsection \<open>Reading a trace\<close>

fun is_wire :: "event \<Rightarrow> bool" where
  "is_wire HttpRequest = True"
| "is_wire (Sleep d) = True"
| "is_wire e = False"

text \<open>The requests and the sleeps of a trace, in the order they happen.\<close>

definition schedule :: "event list \<Rightarrow> event list" where
  "schedule evs = filter is_wire evs"

definition http_requests :: "event list \<Rightarrow> nat" where
  "http_requests evs = length (filter (\<lambda>e. e = HttpRequest) evs)"

fun sleep_of :: "event \<Rightarrow> real list" where
  "sleep_of (Sleep d) = [d]"
| "sleep_of e = []"

definition sleeps :: "event list \<Rightarrow> real list" where
  "sleeps evs = concat (map sleep_of evs)"

text \<open>
  A reply after which the loop goes on, as long as an attempt remains: a timeout, a network
  failure, or a response with a retriable status (whose quota header parses).
\<close>

fun transient :: "reply \<Rightarrow> bool" where
  "transient (Answers r) =
     (status_code r \<in> RETRYABLE_STATUS_CODES \<and> rate_limit_remaining r \<noteq> Garbled)"
| "transient rep = True"

text \<open>What attempt \<open>i\<close> puts on the wire when it is retried: its request, then its backoff.\<close>

definition round_trip :: "nat \<Rightarrow> event list" where
  "round_trip i = [HttpRequest, Sleep (RETRY_DELAY_BASE * 2 ^ i)]"

fun is_info :: "event \<Rightarrow> bool" where
  "is_info (CtxInfo n) = True"
| "is_info e = False"

text \<open>A trace with the \<open>ctx.info\<close> notifications taken out.\<close>

definition without_info :: "event list \<Rightarrow> event list" where
  "without_info evs = filter (\<lambda>e. \<not> is_info e) evs"

section \<open>The fan-out aggregator: \<open>mcp-server-2/tools/comparison_tool.py\<close>\<close>

text \<open>
  \<open>comparison_tool.py\<close> imports \<open>_require_env_vars\<close>, \<open>retry_github_request\<close>,
  \<open>parse_github_datetime\<close> and \<open>calculate_days_ago\<close> from
  \<open>mcp-server-2/tools/utils.py\<close>, which is not among the sources. What a call of
  \<open>retry_github_request\<close> followed by \<open>.json()\<close> gives is therefore an input of the
  model: the decoded payload, or the exception that left the call. The three other
  helpers are taken as their copies in \<open>mcp-server-1/tools/utils.py\<close> and
  \<open>mcp-server-6/tools/utils.py\<close>, which agree.

  Payloads have the value types of the GitHub API; a key may be missing (\<open>None\<close>), which
  is when \<open>.get\<close> gives its default. A date text carries the result of parsing it. Times
  are microseconds since the epoch, the resolution of \<open>datetime\<close>.
\<close>

datatype 'a call_result = Json 'a | Throws exc

text \<open>
  A date field of a payload: missing or empty, a text \<open>datetime.fromisoformat\<close> reads, or a
  text it rejects.
\<close>

datatype date_field = NoDate | Date int | BadDate

record repo_payload =
  gh_open_issues_count :: "int option"
  gh_stargazers_count :: "int option"
  gh_forks_count :: "int option"
  gh_watchers_count :: "int option"
  gh_language :: "string option"
  gh_archived :: "bool option"
  gh_disabled :: "bool option"
  gh_pushed_at :: date_field

record search_payload =
  gh_total_count :: "int option"

text \<open>\<open>commit.get("commit", {}).get("author", {}).get("date")\<close> of one listed commit.\<close>

record commit_payload =
  gh_author_date :: date_field

text \<open>
  What one task of \<open>fetch_repository_data\<close> meets: the outcomes of its three calls and the
  clock \<open>calculate_days_ago\<close> reads.
\<close>

record target_world =
  metadata_call :: "repo_payload call_result"
  pr_search_call :: "search_payload call_result"
  commits_call :: "commit_payload list call_result"
  clock :: int

text \<open>The dictionary \<open>fetch_repository_data\<close> returns, by its keys.\<close>

record repo_data =
  owner :: string
  repo :: string
  open_issues_count :: int
  open_prs_count :: int
  stars_count :: int
  forks_count :: int
  watchers_count :: int
  last_commit_date :: "int option"
  last_commit_age_days :: "int option"
  language :: "string option"
  is_archived :: bool
  is_disabled :: bool
  pushed_at :: "int option"

definition parse_github_datetime :: "date_field \<Rightarrow> int option" where
  "parse_github_datetime date_str =
     (case date_str of NoDate \<Rightarrow> None | Date dt \<Rightarrow> Some dt | BadDate \<Rightarrow> None)"

text \<open>\<open>delta.days\<close> of a \<open>timedelta\<close> is the floor of the difference in days.\<close>

definition calculate_days_ago :: "int \<Rightarrow> int option \<Rightarrow> int option" where
  "calculate_days_ago now date =
     (case date of None \<Rightarrow> None | Some d \<Rightarrow> Some ((now - d) div 86400000000))"

text \<open>\<open>d.get(key, default)\<close>\<close>

definition get_or :: "'a option \<Rightarrow> 'a \<Rightarrow> 'a" where
  "get_or field dflt = (case field of None \<Rightarrow> dflt | Some v \<Rightarrow> v)"

text \<open>Lines 64 to 80: the count of open pull requests, 0 when the search call raises.\<close>

definition open_prs_of :: "search_payload call_result \<Rightarrow> int" where
  "open_prs_of res =
     (case res of Json search_pr_data \<Rightarrow> get_or (gh_total_count search_pr_data) 0
      | Throws e \<Rightarrow> 0)"

text \<open>Lines 82 to 101: the date of the latest commit, \<open>None\<close> when the call raises.\<close>

definition last_commit_of :: "commit_payload list call_result \<Rightarrow> int option" where
  "last_commit_of res =
     (case res of
        Json commits_data \<Rightarrow>
          (case commits_data of
             [] \<Rightarrow> None
           | commit # rest \<Rightarrow> parse_github_datetime (gh_author_date commit))
      | Throws e \<Rightarrow> None)"

text \<open>
  Line 120:
  \<open>parse_github_datetime(repo_data.get("pushed_at")).isoformat() if repo_data.get("pushed_at") else None\<close>.
  On a text that does not parse, \<open>.isoformat()\<close> is called on \<open>None\<close>.
\<close>

definition pushed_at_of :: "date_field \<Rightarrow> exc + int option" where
  "pushed_at_of field =
     (case field of NoDate \<Rightarrow> Inr None | Date dt \<Rightarrow> Inr (Some dt)
      | BadDate \<Rightarrow> Inl AttributeError)"

definition fetch_repository_data :: "target_world \<Rightarrow> string \<Rightarrow> string \<Rightarrow> exc + repo_data" where
  "fetch_repository_data w owner_arg repo_arg =
     (case metadata_call w of
        Throws e \<Rightarrow> Inl e
      | Json repo_json \<Rightarrow>
          (let prs = open_prs_of (pr_search_call w);
               last_commit = last_commit_of (commits_call w);
               age = calculate_days_ago (clock w) last_commit
           in case pushed_at_of (gh_pushed_at repo_json) of
                Inl e \<Rightarrow> Inl e
              | Inr pushed \<Rightarrow>
                  Inr \<lparr>owner = owner_arg,
                       repo = repo_arg,
                       open_issues_count = max 0 (get_or (gh_open_issues_count repo_json) 0 - prs),
                       open_prs_count = prs,
                       stars_count = get_or (gh_stargazers_count repo_json) 0,
                       forks_count = get_or (gh_forks_count repo_json) 0,
                       watchers_count = get_or (gh_watchers_count repo_json) 0,
                       last_commit_date = last_commit,
                       last_commit_age_days = age,
                       language = gh_language repo_json,
                       is_archived = get_or (gh_archived repo_json) False,
                       is_disabled = get_or (gh_disabled repo_json) False,
                       pushed_at = pushed\<rparr>))"

subsection \<open>Python dictionaries, in insertion order\<close>

text \<open>
  \<open>d[k] = v\<close>: a key that is present keeps its place and takes the new value, a new key
  goes to the end. \<open>map_of\<close> is the lookup, \<open>map fst\<close> the keys in order.
\<close>

definition dict_set :: "('k \<times> 'v) list \<Rightarrow> 'k \<Rightarrow> 'v \<Rightarrow> ('k \<times> 'v) list" where
  "dict_set d k v =
     (if k \<in> set (map fst d) then map (\<lambda>kv. if fst kv = k then (k, v) else kv) d
      else d @ [(k, v)])"

subsection \<open>\<open>compare_repositories\<close>\<close>

text \<open>
  The calls of \<open>ctx.info\<close> and \<open>ctx.report_progress\<close>, the tracing span, the comparison
  date and the rendered text are left out: nothing that is computed reads them. The
  model keeps the structured content of the \<open>ToolResult\<close>, as \<open>comparison_dict\<close> of lines
  305 to 310 has it; \<open>RepositoryComparison\<close> of \<open>tools/schemas.py\<close>, which is not among
  the sources, is built from the same values.
\<close>

record comparison =
  repositories :: "(string \<rightharpoonup> string) list"
  metrics :: "(string \<times> (string \<times> int) list) list"
  summary :: "(string \<times> string option) list"

datatype mcp_error = McpError int exc

datatype ctx_message = FetchFailed string exc | ValidationFailed exc

text \<open>
  A run of the tool: its outcome, the targets for which \<open>fetch_repository_data\<close> was
  started (no network call is made anywhere else), and what went to \<open>ctx.error\<close>.
\<close>

record run =
  outcome :: "mcp_error + comparison"
  fetched :: "(string \<times> string) list"
  ctx_errors :: "ctx_message list"

text \<open>An element of \<open>repo_data_list\<close>: the fetched dictionary, or the one with \<open>"error"\<close>.\<close>

datatype slot = Bag repo_data | Failed string string exc

text \<open>Line 184: \<open>_require_env_vars(["GITHUB_TOKEN"])\<close>\<close>

definition require_env_vars :: "(string \<rightharpoonup> string) \<Rightarrow> string list \<Rightarrow> exc + unit" where
  "require_env_vars env required_vars =
     (case filter (\<lambda>var. env var = None) required_vars of
        [] \<Rightarrow> Inr ()
      | missing \<Rightarrow> Inl (ValueError (MissingEnvVars missing)))"

text \<open>Lines 187 to 190.\<close>

definition check_count :: "(string \<rightharpoonup> string) list \<Rightarrow> exc + unit" where
  "check_count repositories_arg =
     (if length repositories_arg < 2 then Inl (ValueError TooFewRepositories)
      else if length repositories_arg > 5 then Inl (ValueError TooManyRepositories)
      else Inr ())"

text \<open>
  Lines 192 to 194, with the pair \<open>repo["owner"]\<close>, \<open>repo["repo"]\<close> that the later
  subscripts read from an entry that passed.
\<close>

fun targets_of :: "(string \<rightharpoonup> string) list \<Rightarrow> exc + (string \<times> string) list" where
  "targets_of [] = Inr []"
| "targets_of (r # rs) =
     (case (r ''owner'', r ''repo'') of
        (Some a, Some b) \<Rightarrow>
          (case targets_of rs of Inl e \<Rightarrow> Inl e | Inr ts \<Rightarrow> Inr ((a, b) # ts))
      | other \<Rightarrow> Inl (ValueError MissingOwnerOrRepo))"

definition validate ::
  "(string \<rightharpoonup> string) \<Rightarrow> (string \<rightharpoonup> string) list \<Rightarrow> exc + (string \<times> string) list" where
  "validate env repositories_arg =
     (case require_env_vars env [''GITHUB_TOKEN''] of
        Inl e \<Rightarrow> Inl e
      | Inr u \<Rightarrow>
          (case check_count repositories_arg of
             Inl e \<Rightarrow> Inl e
           | Inr u' \<Rightarrow> targets_of repositories_arg))"

text \<open>
  Lines 206 to 212: one task per target, \<open>asyncio.gather(*tasks, return_exceptions=True)\<close>.
  The task at position \<open>i\<close> meets \<open>world i\<close>.
\<close>

definition gather ::
  "(nat \<Rightarrow> target_world) \<Rightarrow> (string \<times> string) list \<Rightarrow> (exc + repo_data) list" where
  "gather world targets =
     map (\<lambda>(i, t). fetch_repository_data (world i) (fst t) (snd t)) (enumerate 0 targets)"

text \<open>Lines 216 to 229.\<close>

definition slot_of :: "string \<times> string \<Rightarrow> exc + repo_data \<Rightarrow> slot" where
  "slot_of target result =
     (case result of Inl e \<Rightarrow> Failed (fst target) (snd target) e | Inr d \<Rightarrow> Bag d)"

definition repo_data_list :: "(string \<times> string) list \<Rightarrow> (exc + repo_data) list \<Rightarrow> slot list" where
  "repo_data_list targets results = map (\<lambda>(t, res). slot_of t res) (zip targets results)"

definition repo_name :: "string \<Rightarrow> string \<Rightarrow> string" where
  "repo_name o_name r_name = o_name @ ''/'' @ r_name"

definition error_reports :: "slot list \<Rightarrow> ctx_message list" where
  "error_reports slots =
     concat (map (\<lambda>s. case s of Bag d \<Rightarrow> [] | Failed a b e \<Rightarrow> [FetchFailed (repo_name a b) e])
               slots)"

text \<open>Lines 240 to 247: \<open>metrics or [...]\<close>; an empty list is false.\<close>

definition metrics_to_compare :: "string list option \<Rightarrow> string list" where
  "metrics_to_compare metrics_arg =
     (case metrics_arg of
        None \<Rightarrow> [''open_issues'', ''open_prs'', ''stars'', ''forks'', ''watchers'',
                  ''last_commit_age'']
      | Some [] \<Rightarrow> [''open_issues'', ''open_prs'', ''stars'', ''forks'', ''watchers'',
                     ''last_commit_age'']
      | Some ms \<Rightarrow> ms)"

text \<open>\<open>x or 9999\<close>: \<open>None\<close> is false, and so is 0.\<close>

definition or_9999 :: "int option \<Rightarrow> int" where
  "or_9999 x = (case x of None \<Rightarrow> 9999 | Some n \<Rightarrow> if n = 0 then 9999 else n)"

text \<open>Lines 257 to 268; \<open>None\<close> for a name that no branch matches.\<close>

definition metric_value :: "string \<Rightarrow> repo_data \<Rightarrow> int option" where
  "metric_value metric d =
     (if metric = ''open_issues'' then Some (open_issues_count d)
      else if metric = ''open_prs'' then Some (open_prs_count d)
      else if metric = ''stars'' then Some (stars_count d)
      else if metric = ''forks'' then Some (forks_count d)
      else if metric = ''watchers'' then Some (watchers_count d)
      else if metric = ''last_commit_age'' then Some (or_9999 (last_commit_age_days d))
      else None)"

text \<open>Lines 252 to 268: what one element of \<open>repo_data_list\<close> adds to the row of a metric.\<close>

definition add_metric :: "string \<Rightarrow> slot \<Rightarrow> (string \<times> int) list \<Rightarrow> (string \<times> int) list" where
  "add_metric metric s row =
     (case s of
        Failed a b e \<Rightarrow> row
      | Bag d \<Rightarrow>
          (case metric_value metric d of
             None \<Rightarrow> row
           | Some v \<Rightarrow> dict_set row (repo_name (owner d) (repo d)) v))"

text \<open>Lines 250 to 268: the dictionary of one metric.\<close>

definition metric_row :: "string \<Rightarrow> slot list \<Rightarrow> (string \<times> int) list" where
  "metric_row metric slots = fold (add_metric metric) slots []"

text \<open>Lines 249 to 268.\<close>

definition comparison_metrics ::
  "string list \<Rightarrow> slot list \<Rightarrow> (string \<times> (string \<times> int) list) list" where
  "comparison_metrics names slots =
     fold (\<lambda>metric cm. dict_set cm metric (metric_row metric slots)) names []"

text \<open>\<open>min\<close> and \<open>max\<close> of Python raise \<open>ValueError\<close> on an empty sequence.\<close>

definition py_min :: "int list \<Rightarrow> exc + int" where
  "py_min xs = (case xs of [] \<Rightarrow> Inl (ValueError EmptySequence) | x # ys \<Rightarrow> Inr (fold min ys x))"

definition py_max :: "int list \<Rightarrow> exc + int" where
  "py_max xs = (case xs of [] \<Rightarrow> Inl (ValueError EmptySequence) | x # ys \<Rightarrow> Inr (fold max ys x))"

text \<open>\<open>[repo for repo, v in row.items() if v == best][0]\<close>\<close>

definition first_with :: "int \<Rightarrow> (string \<times> int) list \<Rightarrow> exc + string" where
  "first_with best row =
     (case filter (\<lambda>kv. snd kv = best) row of
        [] \<Rightarrow> Inl IndexError
      | kv # rest \<Rightarrow> Inr (fst kv))"

text \<open>
  Lines 275 to 279 (and 284 to 288, 293 to 297): the extreme value is computed first, over
  all values of the row; the test for an empty row comes after it.
\<close>

definition leader ::
  "(int list \<Rightarrow> exc + int) \<Rightarrow> (string \<times> int) list \<Rightarrow> exc + string option" where
  "leader pick row =
     (case pick (map snd row) of
        Inl e \<Rightarrow> Inl e
      | Inr best \<Rightarrow>
          if row \<noteq> [] then
            (case first_with best row of Inl e \<Rightarrow> Inl e | Inr k \<Rightarrow> Inr (Some k))
          else Inr None)"

text \<open>One of the three \<open>if "..." in comparison_metrics:\<close> blocks.\<close>

definition ranking ::
  "string \<Rightarrow> string \<Rightarrow> (int list \<Rightarrow> exc + int) \<Rightarrow> (string \<times> (string \<times> int) list) list \<Rightarrow>
     (string \<times> string option) list \<Rightarrow> exc + (string \<times> string option) list" where
  "ranking metric title pick cm sm =
     (case map_of cm metric of
        None \<Rightarrow> Inr sm
      | Some row \<Rightarrow>
          (case leader pick row of Inl e \<Rightarrow> Inl e | Inr best \<Rightarrow> Inr (dict_set sm title best)))"

text \<open>Lines 270 to 298.\<close>

definition summarize ::
  "(string \<times> (string \<times> int) list) list \<Rightarrow> exc + (string \<times> string option) list" where
  "summarize cm =
     (case ranking ''last_commit_age'' ''most_active'' py_min cm [] of
        Inl e \<Rightarrow> Inl e
      | Inr s1 \<Rightarrow>
          (case ranking ''stars'' ''most_popular'' py_max cm s1 of
             Inl e \<Rightarrow> Inl e
           | Inr s2 \<Rightarrow> ranking ''forks'' ''most_forked'' py_max cm s2))"

text \<open>
  The \<open>except\<close> clauses of lines 391 to 409. A \<open>ValueError\<close> becomes an invalid-params
  error. Any other exception goes to \<open>handle_github_error\<close>, whose copies under
  \<open>src/\<close> give their last branch the code -32603; no exception of the three httpx
  classes reaches these clauses, since \<open>gather\<close> keeps the exceptions of the tasks.
\<close>

definition to_mcp_error :: "exc \<Rightarrow> mcp_error" where
  "to_mcp_error e =
     (case e of ValueError m \<Rightarrow> McpError (- 32602) e | other \<Rightarrow> McpError (- 32603) e)"

definition compare_repositories ::
  "(string \<rightharpoonup> string) \<Rightarrow> (string \<rightharpoonup> string) list \<Rightarrow> string list option \<Rightarrow>
     (nat \<Rightarrow> target_world) \<Rightarrow> run" where
  "compare_repositories env repositories_arg metrics_arg world =
     (case validate env repositories_arg of
        Inl e \<Rightarrow>
          \<lparr>outcome = Inl (to_mcp_error e), fetched = [], ctx_errors = [ValidationFailed e]\<rparr>
      | Inr targets \<Rightarrow>
          (let slots = repo_data_list targets (gather world targets);
               cm = comparison_metrics (metrics_to_compare metrics_arg) slots
           in case summarize cm of
                Inl e \<Rightarrow>
                  \<lparr>outcome = Inl (to_mcp_error e), fetched = targets,
                   ctx_errors = error_reports slots @ [ValidationFailed e]\<rparr>
              | Inr sm \<Rightarrow>
                  \<lparr>outcome = Inr \<lparr>repositories = repositories_arg, metrics = cm, summary = sm\<rparr>,
                   fetched = targets, ctx_errors = error_reports slots\<rparr>))"

subsection \<open>Reading a list of slots\<close>

fun is_bag :: "slot \<Rightarrow> bool" where
  "is_bag (Bag d) = True"
| "is_bag (Failed a b e) = False"

text \<open>The key of a fetched repository in every row: \<open>f"{repo_data['owner']}/{repo_data['repo']}"\<close>.\<close>

definition bag_name :: "repo_data \<Rightarrow> string" where
  "bag_name d = repo_name (owner d) (repo d)"

subsection \<open>Example inputs\<close>

definition example_env :: "string \<rightharpoonup> string" where
  "example_env = [''GITHUB_TOKEN'' \<mapsto> ''secret'']"

definition example_ref :: "string \<Rightarrow> string \<Rightarrow> (string \<rightharpoonup> string)" where
  "example_ref a b = [''owner'' \<mapsto> a, ''repo'' \<mapsto> b]"

text \<open>
  A target whose three calls succeed: 10 open issues of which 3 are pull requests, the given
  stars and forks, and a latest commit \<open>age\<close> days (and 5 microseconds) old.
\<close>

definition example_success :: "int \<Rightarrow> int \<Rightarrow> int \<Rightarrow> target_world" where
  "example_success stars forks age =
     \<lparr>metadata_call = Json \<lparr>gh_open_issues_count = Some 10, gh_stargazers_count = Some stars,
         gh_forks_count = Some forks, gh_watchers_count = Some 1, gh_language = None,
         gh_archived = None, gh_disabled = None, gh_pushed_at = NoDate\<rparr>,
       pr_search_call = Json \<lparr>gh_total_count = Some 3\<rparr>,
       commits_call = Json [\<lparr>gh_author_date = Date 0\<rparr>],
       clock = age * 86400000000 + 5\<rparr>"

text \<open>A target whose metadata call raises \<open>e\<close>.\<close>

definition example_failure :: "exc \<Rightarrow> target_world" where
  "example_failure e =
     \<lparr>metadata_call = Throws e,
       pr_search_call = Json \<lparr>gh_total_count = Some 3\<rparr>,
       commits_call = Json [\<lparr>gh_author_date = Date 0\<rparr>],
       clock = 5\<rparr>"

definition not_found :: exc where
  "not_found = HTTPStatusError (Some \<lparr>status_code = 404, rate_limit_remaining = Absent\<rparr>)"

text \<open>
  Three targets: the first fails with \<open>e\<close> at its metadata call, the other two succeed.
\<close>

definition example_partial :: "exc \<Rightarrow> nat \<Rightarrow> target_world" where
  "example_partial e i =
     (if i = 0 then example_failure e
      else if i = 1 then example_success 100 7 5
      else example_success 500 3 9)"

section \<open>Properties of \<open>retry_github_request\<close>\<close>

declare attempts_s1.simps [simp del] attempts_s6.simps [simp del]

subsection \<open>One iteration\<close>

lemma schedule_append: "schedule (xs @ ys) = schedule xs @ schedule ys"
  by (simp add: schedule_def)

lemma schedule_info: "schedule (info ctx n) = []"
  by (cases ctx) (simp_all add: info_def schedule_def)

lemma schedule_limited_request: "schedule limited_request = [HttpRequest]"
  by (simp add: limited_request_def schedule_def)

lemma schedule_sleep: "schedule [Sleep d] = [Sleep d]"
  by (simp add: schedule_def)

lemma schedule_nil: "schedule [] = []"
  by (simp add: schedule_def)

lemmas schedule_simps =
  schedule_append schedule_info schedule_limited_request schedule_sleep schedule_nil

lemma quota_check_s1_parses:
  "rate_limit_remaining r \<noteq> Garbled \<Longrightarrow>
     \<exists>notes. quota_check_s1 ctx r = Inr notes \<and> schedule notes = []"
  by (cases "rate_limit_remaining r") (simp_all add: quota_check_s1_def schedule_simps)

lemma quota_check_s6_parses:
  "rate_limit_remaining r \<noteq> Garbled \<Longrightarrow>
     \<exists>notes. quota_check_s6 ctx r = Inr notes \<and> schedule notes = []"
  by (cases "rate_limit_remaining r") (simp_all add: quota_check_s6_def schedule_simps)

lemma retryable_not_success:
  "status_code r \<in> RETRYABLE_STATUS_CODES \<Longrightarrow> raise_for_status r = Some (HTTPStatusError (Some r))"
  by (auto simp: RETRYABLE_STATUS_CODES_def raise_for_status_def)

lemma iteration_s1_transient:
  assumes "transient rep" and "int a < N - 1" and "a < 1024"
  shows "\<exists>lx' evs. iteration_s1 ctx N a lx rep = (Continue, lx', evs)
           \<and> schedule evs = round_trip a"
proof (cases rep)
  case (Answers r)
  with assms obtain qs where "quota_check_s1 ctx r = Inr qs" "schedule qs = []"
    using quota_check_s1_parses by fastforce
  with Answers assms show ?thesis
    by (simp add: iteration_s1_def try_body_s1_def handlers_s1_def schedule_simps round_trip_def backoff_delay_def)
next
  case TimesOut
  with assms show ?thesis
    by (simp add: iteration_s1_def try_body_s1_def handlers_s1_def schedule_simps round_trip_def backoff_delay_def)
next
  case NetworkFails
  with assms show ?thesis
    by (simp add: iteration_s1_def try_body_s1_def handlers_s1_def schedule_simps round_trip_def backoff_delay_def)
qed

lemma iteration_s6_transient:
  assumes "transient rep" and "int a < N - 1" and "a < 1024"
  shows "\<exists>lx' evs. iteration_s6 ctx N a lx rep = (Continue, lx', evs)
           \<and> schedule evs = round_trip a"
proof (cases rep)
  case (Answers r)
  with assms obtain qs where "quota_check_s6 ctx r = Inr qs" "schedule qs = []"
    using quota_check_s6_parses by fastforce
  with Answers assms show ?thesis
    by (simp add: iteration_s6_def try_body_s6_def handlers_s6_def schedule_simps round_trip_def backoff_delay_def)
next
  case TimesOut
  with assms show ?thesis
    by (simp add: iteration_s6_def try_body_s6_def handlers_s6_def schedule_simps round_trip_def backoff_delay_def)
next
  case NetworkFails
  with assms show ?thesis
    by (simp add: iteration_s6_def try_body_s6_def handlers_s6_def schedule_simps round_trip_def backoff_delay_def)
qed

text \<open>A retry at attempt 1024 or later: the delay cannot be computed.\<close>

lemma iteration_s1_overflows:
  assumes "transient rep" and "int a < N - 1" and "1024 \<le> a"
  shows "\<exists>lx' evs. iteration_s1 ctx N a lx rep = (Raise OverflowError, lx', evs)
           \<and> schedule evs = [HttpRequest]"
proof (cases rep)
  case (Answers r)
  with assms obtain qs where "quota_check_s1 ctx r = Inr qs" "schedule qs = []"
    using quota_check_s1_parses by fastforce
  with Answers assms show ?thesis
    by (simp add: iteration_s1_def try_body_s1_def handlers_s1_def schedule_simps
        backoff_delay_def)
next
  case TimesOut
  with assms show ?thesis
    by (simp add: iteration_s1_def try_body_s1_def handlers_s1_def schedule_simps
        backoff_delay_def)
next
  case NetworkFails
  with assms show ?thesis
    by (simp add: iteration_s1_def try_body_s1_def handlers_s1_def schedule_simps
        backoff_delay_def)
qed

lemma iteration_s6_overflows:
  assumes "transient rep" and "int a < N - 1" and "1024 \<le> a"
  shows "\<exists>lx' evs. iteration_s6 ctx N a lx rep = (Raise OverflowError, lx', evs)
           \<and> schedule evs = [HttpRequest]"
proof (cases rep)
  case (Answers r)
  with assms obtain qs where "quota_check_s6 ctx r = Inr qs" "schedule qs = []"
    using quota_check_s6_parses by fastforce
  with Answers assms show ?thesis
    by (simp add: iteration_s6_def try_body_s6_def handlers_s6_def schedule_simps
        backoff_delay_def)
next
  case TimesOut
  with assms show ?thesis
    by (simp add: iteration_s6_def try_body_s6_def handlers_s6_def schedule_simps
        backoff_delay_def)
next
  case NetworkFails
  with assms show ?thesis
    by (simp add: iteration_s6_def try_body_s6_def handlers_s6_def schedule_simps
        backoff_delay_def)
qed

text \<open>A response that ends the call: the last retriable one, or a non-retriable one.\<close>

lemma iteration_s1_raises:
  assumes "rate_limit_remaining r \<noteq> Garbled"
    and "raise_for_status r = Some (HTTPStatusError (Some r))"
    and "status_code r \<in> RETRYABLE_STATUS_CODES \<longrightarrow> \<not> int a < N - 1"
  shows "\<exists>lx' evs. iteration_s1 ctx N a lx (Answers r)
             = (Raise (HTTPStatusError (Some r)), lx', evs)
           \<and> schedule evs = [HttpRequest]"
proof -
  from assms(1) obtain qs where "quota_check_s1 ctx r = Inr qs" "schedule qs = []"
    using quota_check_s1_parses by blast
  with assms show ?thesis
    by (simp add: iteration_s1_def try_body_s1_def handlers_s1_def schedule_simps
        raise_or_return_def)
qed

lemma iteration_s6_raises:
  assumes "rate_limit_remaining r \<noteq> Garbled"
    and "raise_for_status r = Some (HTTPStatusError (Some r))"
    and "status_code r \<in> RETRYABLE_STATUS_CODES \<longrightarrow> \<not> int a < N - 1"
  shows "\<exists>lx' evs. iteration_s6 ctx N a lx (Answers r)
             = (Raise (HTTPStatusError (Some r)), lx', evs)
           \<and> schedule evs = [HttpRequest]"
proof -
  from assms(1) obtain qs where "quota_check_s6 ctx r = Inr qs" "schedule qs = []"
    using quota_check_s6_parses by blast
  with assms show ?thesis
    by (simp add: iteration_s6_def try_body_s6_def handlers_s6_def schedule_simps
        raise_or_return_def)
qed

lemma success_not_retryable:
  "200 \<le> status_code r \<Longrightarrow> status_code r \<le> 299 \<Longrightarrow> status_code r \<notin> RETRYABLE_STATUS_CODES"
  by (auto simp: RETRYABLE_STATUS_CODES_def)

lemma iteration_s1_returns:
  assumes "rate_limit_remaining r \<noteq> Garbled"
    and "200 \<le> status_code r" and "status_code r \<le> 299"
  shows "\<exists>lx' evs. iteration_s1 ctx N a lx (Answers r) = (Return r, lx', evs)
           \<and> schedule evs = [HttpRequest]"
proof -
  from assms(1) obtain qs where "quota_check_s1 ctx r = Inr qs" "schedule qs = []"
    using quota_check_s1_parses by blast
  with assms success_not_retryable [of r] show ?thesis
    by (simp add: iteration_s1_def try_body_s1_def handlers_s1_def schedule_simps
        raise_or_return_def raise_for_status_def)
qed

lemma iteration_s6_returns:
  assumes "rate_limit_remaining r \<noteq> Garbled"
    and "200 \<le> status_code r" and "status_code r \<le> 299"
  shows "\<exists>lx' evs. iteration_s6 ctx N a lx (Answers r) = (Return r, lx', evs)
           \<and> schedule evs = [HttpRequest]"
proof -
  from assms(1) obtain qs where "quota_check_s6 ctx r = Inr qs" "schedule qs = []"
    using quota_check_s6_parses by blast
  with assms success_not_retryable [of r] show ?thesis
    by (simp add: iteration_s6_def try_body_s6_def handlers_s6_def schedule_simps
        raise_or_return_def raise_for_status_def)
qed

subsection \<open>The loop over transient replies\<close>

lemma upt_step: "[a..<a + Suc k] = a # [Suc a..<Suc a + k]"
  by (simp add: upt_conv_Cons del: upt_Suc)

lemma prepend_nil: "prepend [] res = res"
  by (simp add: prepend_def)

lemma prepend_prepend: "prepend xs (prepend ys res) = prepend (xs @ ys) res"
  by (simp add: prepend_def)

lemma attempts_s1_continue:
  "int a < N \<Longrightarrow> iteration_s1 ctx N a lx (up a) = (Continue, lx', evs) \<Longrightarrow>
     attempts_s1 ctx N up a lx = prepend evs (attempts_s1 ctx N up (Suc a) lx')"
  by (subst attempts_s1.simps) simp

lemma attempts_s1_raise:
  "int a < N \<Longrightarrow> iteration_s1 ctx N a lx (up a) = (Raise e, lx', evs) \<Longrightarrow>
     attempts_s1 ctx N up a lx = (Raised e, evs)"
  by (subst attempts_s1.simps) simp

lemma attempts_s1_return:
  "int a < N \<Longrightarrow> iteration_s1 ctx N a lx (up a) = (Return r, lx', evs) \<Longrightarrow>
     attempts_s1 ctx N up a lx = (Returned r, evs)"
  by (subst attempts_s1.simps) simp

lemma attempts_s1_skip:
  "(\<And>i. a \<le> i \<Longrightarrow> i < a + k \<Longrightarrow> transient (up i)) \<Longrightarrow> int (a + k) < N \<Longrightarrow>
     a + k \<le> 1024 \<Longrightarrow>
     \<exists>lx' evs. attempts_s1 ctx N up a lx = prepend evs (attempts_s1 ctx N up (a + k) lx')
        \<and> schedule evs = concat (map round_trip [a..<a + k])"
proof (induction k arbitrary: a lx)
  case 0
  have "attempts_s1 ctx N up a lx = prepend [] (attempts_s1 ctx N up (a + 0) lx)"
    by (simp add: prepend_nil)
  then show ?case
    using schedule_nil by fastforce
next
  case (Suc k)
  have "transient (up a)" using Suc.prems(1) [of a] by simp
  moreover have small: "int a < N - 1" using Suc.prems(2) by simp
  moreover have "a < 1024" using Suc.prems(3) by simp
  ultimately obtain l1 e1 where
    it: "iteration_s1 ctx N a lx (up a) = (Continue, l1, e1)" and e1: "schedule e1 = round_trip a"
    using iteration_s1_transient by blast
  have step: "attempts_s1 ctx N up a lx = prepend e1 (attempts_s1 ctx N up (Suc a) l1)"
    using small it by (intro attempts_s1_continue) simp_all
  have "\<exists>lx' evs. attempts_s1 ctx N up (Suc a) l1
            = prepend evs (attempts_s1 ctx N up (Suc a + k) lx')
          \<and> schedule evs = concat (map round_trip [Suc a..<Suc a + k])"
    using Suc.prems by (intro Suc.IH) simp_all
  then obtain l2 e2 where
    rest: "attempts_s1 ctx N up (Suc a) l1 = prepend e2 (attempts_s1 ctx N up (Suc a + k) l2)"
    and e2: "schedule e2 = concat (map round_trip [Suc a..<Suc a + k])"
    by blast
  have "attempts_s1 ctx N up a lx = prepend (e1 @ e2) (attempts_s1 ctx N up (a + Suc k) l2)"
    using step rest by (simp add: prepend_prepend)
  moreover have "schedule (e1 @ e2) = concat (map round_trip [a..<a + Suc k])"
    by (simp only: schedule_append e1 e2 upt_step list.map concat.simps)
  ultimately show ?case by blast
qed

lemma attempts_s6_continue:
  "int a < N \<Longrightarrow> iteration_s6 ctx N a lx (up a) = (Continue, lx', evs) \<Longrightarrow>
     attempts_s6 ctx N up a lx = prepend evs (attempts_s6 ctx N up (Suc a) lx')"
  by (subst attempts_s6.simps) simp

lemma attempts_s6_raise:
  "int a < N \<Longrightarrow> iteration_s6 ctx N a lx (up a) = (Raise e, lx', evs) \<Longrightarrow>
     attempts_s6 ctx N up a lx = (Raised e, evs)"
  by (subst attempts_s6.simps) simp

lemma attempts_s6_return:
  "int a < N \<Longrightarrow> iteration_s6 ctx N a lx (up a) = (Return r, lx', evs) \<Longrightarrow>
     attempts_s6 ctx N up a lx = (Returned r, evs)"
  by (subst attempts_s6.simps) simp

lemma attempts_s6_skip:
  "(\<And>i. a \<le> i \<Longrightarrow> i < a + k \<Longrightarrow> transient (up i)) \<Longrightarrow> int (a + k) < N \<Longrightarrow>
     a + k \<le> 1024 \<Longrightarrow>
     \<exists>lx' evs. attempts_s6 ctx N up a lx = prepend evs (attempts_s6 ctx N up (a + k) lx')
        \<and> schedule evs = concat (map round_trip [a..<a + k])"
proof (induction k arbitrary: a lx)
  case 0
  have "attempts_s6 ctx N up a lx = prepend [] (attempts_s6 ctx N up (a + 0) lx)"
    by (simp add: prepend_nil)
  then show ?case
    using schedule_nil by fastforce
next
  case (Suc k)
  have "transient (up a)" using Suc.prems(1) [of a] by simp
  moreover have small: "int a < N - 1" using Suc.prems(2) by simp
  moreover have "a < 1024" using Suc.prems(3) by simp
  ultimately obtain l1 e1 where
    it: "iteration_s6 ctx N a lx (up a) = (Continue, l1, e1)" and e1: "schedule e1 = round_trip a"
    using iteration_s6_transient by blast
  have step: "attempts_s6 ctx N up a lx = prepend e1 (attempts_s6 ctx N up (Suc a) l1)"
    using small it by (intro attempts_s6_continue) simp_all
  have "\<exists>lx' evs. attempts_s6 ctx N up (Suc a) l1
            = prepend evs (attempts_s6 ctx N up (Suc a + k) lx')
          \<and> schedule evs = concat (map round_trip [Suc a..<Suc a + k])"
    using Suc.prems by (intro Suc.IH) simp_all
  then obtain l2 e2 where
    rest: "attempts_s6 ctx N up (Suc a) l1 = prepend e2 (attempts_s6 ctx N up (Suc a + k) l2)"
    and e2: "schedule e2 = concat (map round_trip [Suc a..<Suc a + k])"
    by blast
  have "attempts_s6 ctx N up a lx = prepend (e1 @ e2) (attempts_s6 ctx N up (a + Suc k) l2)"
    using step rest by (simp add: prepend_prepend)
  moreover have "schedule (e1 @ e2) = concat (map round_trip [a..<a + Suc k])"
    by (simp only: schedule_append e1 e2 upt_step list.map concat.simps)
  ultimately show ?case by blast
qed

text \<open>Counting on a schedule.\<close>

lemma http_requests_schedule: "http_requests evs = http_requests (schedule evs)"
proof -
  have "filter (\<lambda>e. e = HttpRequest) evs = filter (\<lambda>e. e = HttpRequest) (filter is_wire evs)"
    by (induction evs) auto
  then show ?thesis by (simp add: http_requests_def schedule_def)
qed

lemma sleeps_schedule: "sleeps evs = sleeps (schedule evs)"
proof (induction evs)
  case Nil
  show ?case by (simp add: sleeps_def schedule_def)
next
  case (Cons e evs)
  then show ?case by (cases e) (simp_all add: sleeps_def schedule_def)
qed

lemma http_requests_round_trips:
  "http_requests (concat (map round_trip [a..<a + k]) @ [HttpRequest]) = Suc k"
proof (induction k arbitrary: a)
  case 0
  show ?case by (simp add: http_requests_def)
next
  case (Suc k)
  have "http_requests (concat (map round_trip [Suc a..<Suc a + k]) @ [HttpRequest]) = Suc k"
    by (rule Suc.IH)
  then show ?case
    by (simp only: upt_step list.map concat.simps) (simp add: http_requests_def round_trip_def)
qed

lemma sleeps_round_trips:
  "sleeps (concat (map round_trip [a..<a + k]) @ [HttpRequest]) = map (\<lambda>i. RETRY_DELAY_BASE * 2 ^ i) [a..<a + k]"
proof (induction k arbitrary: a)
  case 0
  show ?case by (simp add: sleeps_def)
next
  case (Suc k)
  have "sleeps (concat (map round_trip [Suc a..<Suc a + k]) @ [HttpRequest])
          = map (\<lambda>i. RETRY_DELAY_BASE * 2 ^ i) [Suc a..<Suc a + k]"
    by (rule Suc.IH)
  then show ?case
    by (simp only: upt_step list.map concat.simps) (simp add: sleeps_def round_trip_def)
qed

subsection \<open>How a call ends\<close>

lemma retry_s1_run:
  assumes "\<And>i. i < k \<Longrightarrow> transient (up i)" and "int k < N" and "k \<le> 1024"
  shows "\<exists>lx' evs. retry_github_request_s1 ctx N up = prepend evs (attempts_s1 ctx N up k lx')
           \<and> schedule evs = concat (map round_trip [0..<k])"
  using attempts_s1_skip [of 0 k up N ctx None] assms
  by (simp add: retry_github_request_s1_def)

lemma retry_s6_run:
  assumes "\<And>i. i < k \<Longrightarrow> transient (up i)" and "int k < N" and "k \<le> 1024"
  shows "\<exists>lx' evs. retry_github_request_s6 ctx N up = prepend evs (attempts_s6 ctx N up k lx')
           \<and> schedule evs = concat (map round_trip [0..<k])"
  using attempts_s6_skip [of 0 k up N ctx None] assms
  by (simp add: retry_github_request_s6_def)

lemma retry_s1_ends_raising:
  assumes before: "\<And>i. i < k \<Longrightarrow> transient (up i)" and k: "int k < N"
    and small: "k \<le> 1024"
    and r: "up k = Answers r" "rate_limit_remaining r \<noteq> Garbled"
    and bad: "raise_for_status r = Some (HTTPStatusError (Some r))"
    and final: "status_code r \<in> RETRYABLE_STATUS_CODES \<longrightarrow> \<not> int k < N - 1"
  shows "fst (retry_github_request_s1 ctx N up) = Raised (HTTPStatusError (Some r))
       \<and> schedule (snd (retry_github_request_s1 ctx N up))
           = concat (map round_trip [0..<k]) @ [HttpRequest]"
proof -
  obtain lx' evs where
    run: "retry_github_request_s1 ctx N up = prepend evs (attempts_s1 ctx N up k lx')"
    and evs: "schedule evs = concat (map round_trip [0..<k])"
    using retry_s1_run [of k up N ctx] before k small by blast
  obtain l2 e2 where
    it: "iteration_s1 ctx N k lx' (up k) = (Raise (HTTPStatusError (Some r)), l2, e2)"
    and e2: "schedule e2 = [HttpRequest]"
    using iteration_s1_raises [OF r(2) bad final] r(1) by metis
  have "attempts_s1 ctx N up k lx' = (Raised (HTTPStatusError (Some r)), e2)"
    using k it by (rule attempts_s1_raise)
  with run evs e2 show ?thesis
    by (simp add: prepend_def schedule_append)
qed

lemma retry_s6_ends_raising:
  assumes before: "\<And>i. i < k \<Longrightarrow> transient (up i)" and k: "int k < N"
    and small: "k \<le> 1024"
    and r: "up k = Answers r" "rate_limit_remaining r \<noteq> Garbled"
    and bad: "raise_for_status r = Some (HTTPStatusError (Some r))"
    and final: "status_code r \<in> RETRYABLE_STATUS_CODES \<longrightarrow> \<not> int k < N - 1"
  shows "fst (retry_github_request_s6 ctx N up) = Raised (HTTPStatusError (Some r))
       \<and> schedule (snd (retry_github_request_s6 ctx N up))
           = concat (map round_trip [0..<k]) @ [HttpRequest]"
proof -
  obtain lx' evs where
    run: "retry_github_request_s6 ctx N up = prepend evs (attempts_s6 ctx N up k lx')"
    and evs: "schedule evs = concat (map round_trip [0..<k])"
    using retry_s6_run [of k up N ctx] before k small by blast
  obtain l2 e2 where
    it: "iteration_s6 ctx N k lx' (up k) = (Raise (HTTPStatusError (Some r)), l2, e2)"
    and e2: "schedule e2 = [HttpRequest]"
    using iteration_s6_raises [OF r(2) bad final] r(1) by metis
  have "attempts_s6 ctx N up k lx' = (Raised (HTTPStatusError (Some r)), e2)"
    using k it by (rule attempts_s6_raise)
  with run evs e2 show ?thesis
    by (simp add: prepend_def schedule_append)
qed

lemma retry_s1_ends_returning:
  assumes before: "\<And>i. i < k \<Longrightarrow> transient (up i)" and k: "int k < N"
    and small: "k \<le> 1024"
    and r: "up k = Answers r" "rate_limit_remaining r \<noteq> Garbled"
    and ok: "200 \<le> status_code r" "status_code r \<le> 299"
  shows "fst (retry_github_request_s1 ctx N up) = Returned r
       \<and> schedule (snd (retry_github_request_s1 ctx N up))
           = concat (map round_trip [0..<k]) @ [HttpRequest]"
proof -
  obtain lx' evs where
    run: "retry_github_request_s1 ctx N up = prepend evs (attempts_s1 ctx N up k lx')"
    and evs: "schedule evs = concat (map round_trip [0..<k])"
    using retry_s1_run [of k up N ctx] before k small by blast
  obtain l2 e2 where
    it: "iteration_s1 ctx N k lx' (up k) = (Return r, l2, e2)"
    and e2: "schedule e2 = [HttpRequest]"
    using iteration_s1_returns [OF r(2) ok] r(1) by metis
  have "attempts_s1 ctx N up k lx' = (Returned r, e2)"
    using k it by (rule attempts_s1_return)
  with run evs e2 show ?thesis
    by (simp add: prepend_def schedule_append)
qed

lemma retry_s6_ends_returning:
  assumes before: "\<And>i. i < k \<Longrightarrow> transient (up i)" and k: "int k < N"
    and small: "k \<le> 1024"
    and r: "up k = Answers r" "rate_limit_remaining r \<noteq> Garbled"
    and ok: "200 \<le> status_code r" "status_code r \<le> 299"
  shows "fst (retry_github_request_s6 ctx N up) = Returned r
       \<and> schedule (snd (retry_github_request_s6 ctx N up))
           = concat (map round_trip [0..<k]) @ [HttpRequest]"
proof -
  obtain lx' evs where
    run: "retry_github_request_s6 ctx N up = prepend evs (attempts_s6 ctx N up k lx')"
    and evs: "schedule evs = concat (map round_trip [0..<k])"
    using retry_s6_run [of k up N ctx] before k small by blast
  obtain l2 e2 where
    it: "iteration_s6 ctx N k lx' (up k) = (Return r, l2, e2)"
    and e2: "schedule e2 = [HttpRequest]"
    using iteration_s6_returns [OF r(2) ok] r(1) by metis
  have "attempts_s6 ctx N up k lx' = (Returned r, e2)"
    using k it by (rule attempts_s6_return)
  with run evs e2 show ?thesis
    by (simp add: prepend_def schedule_append)
qed

lemma retry_s1_overflows:
  assumes all: "\<And>i. i \<le> 1024 \<Longrightarrow> transient (up i)" and big: "1026 \<le> N"
  shows "fst (retry_github_request_s1 ctx N up) = Raised OverflowError
       \<and> schedule (snd (retry_github_request_s1 ctx N up))
           = concat (map round_trip [0..<1024]) @ [HttpRequest]"
proof -
  have k: "int (1024::nat) < N" using big by simp
  have before: "\<And>i. i < (1024::nat) \<Longrightarrow> transient (up i)" using all by simp
  obtain lx' evs where
    run: "retry_github_request_s1 ctx N up = prepend evs (attempts_s1 ctx N up 1024 lx')"
    and evs: "schedule evs = concat (map round_trip [0..<1024])"
    using retry_s1_run [of 1024 up N ctx] before k by blast
  have "transient (up 1024)" using all by simp
  moreover have "int (1024::nat) < N - 1" using big by simp
  ultimately obtain l2 e2 where
    it: "iteration_s1 ctx N 1024 lx' (up 1024) = (Raise OverflowError, l2, e2)"
    and e2: "schedule e2 = [HttpRequest]"
    using iteration_s1_overflows [of "up 1024" 1024 N ctx lx'] by auto
  have "attempts_s1 ctx N up 1024 lx' = (Raised OverflowError, e2)"
    using k it by (rule attempts_s1_raise)
  with run evs e2 show ?thesis
    by (simp add: prepend_def schedule_append)
qed

lemma retry_s6_overflows:
  assumes all: "\<And>i. i \<le> 1024 \<Longrightarrow> transient (up i)" and big: "1026 \<le> N"
  shows "fst (retry_github_request_s6 ctx N up) = Raised OverflowError
       \<and> schedule (snd (retry_github_request_s6 ctx N up))
           = concat (map round_trip [0..<1024]) @ [HttpRequest]"
proof -
  have k: "int (1024::nat) < N" using big by simp
  have before: "\<And>i. i < (1024::nat) \<Longrightarrow> transient (up i)" using all by simp
  obtain lx' evs where
    run: "retry_github_request_s6 ctx N up = prepend evs (attempts_s6 ctx N up 1024 lx')"
    and evs: "schedule evs = concat (map round_trip [0..<1024])"
    using retry_s6_run [of 1024 up N ctx] before k by blast
  have "transient (up 1024)" using all by simp
  moreover have "int (1024::nat) < N - 1" using big by simp
  ultimately obtain l2 e2 where
    it: "iteration_s6 ctx N 1024 lx' (up 1024) = (Raise OverflowError, l2, e2)"
    and e2: "schedule e2 = [HttpRequest]"
    using iteration_s6_overflows [of "up 1024" 1024 N ctx lx'] by auto
  have "attempts_s6 ctx N up 1024 lx' = (Raised OverflowError, e2)"
    using k it by (rule attempts_s6_raise)
  with run evs e2 show ?thesis
    by (simp add: prepend_def schedule_append)
qed

lemma count_of_schedule:
  assumes "schedule evs = concat (map round_trip [0..<k]) @ [HttpRequest]"
  shows "http_requests evs = Suc k \<and> sleeps evs = map (\<lambda>i. RETRY_DELAY_BASE * 2 ^ i) [0..<k]"
  using http_requests_round_trips [of 0 k] sleeps_round_trips [of 0 k] assms
  by (simp add: http_requests_schedule [of evs] sleeps_schedule [of evs])

subsection \<open>Retriable statuses use the whole budget; a success ends the call\<close>

text \<open>
  Claim C1, as stated, fails for a budget of 1026 or more. With every attempt answered
  503, attempts 0 to 1023 are retried; at attempt 1024 the delay
  \<open>1.0 * (2 ** 1024)\<close> raises \<open>OverflowError\<close>, which no handler catches: 1025 requests
  are sent, not 1026, and the error that leaves the call is not the \<open>HTTPStatusError\<close>.
\<close>

theorem retry_budget_1026_overflows:
  "fst (retry_github_request_s1 None 1026
          (\<lambda>i. Answers \<lparr>status_code = 503, rate_limit_remaining = Absent\<rparr>))
     = Raised OverflowError
   \<and> fst (retry_github_request_s6 None 1026
          (\<lambda>i. Answers \<lparr>status_code = 503, rate_limit_remaining = Absent\<rparr>))
     = Raised OverflowError
   \<and> http_requests (snd (retry_github_request_s1 None 1026
          (\<lambda>i. Answers \<lparr>status_code = 503, rate_limit_remaining = Absent\<rparr>))) = 1025
   \<and> http_requests (snd (retry_github_request_s6 None 1026
          (\<lambda>i. Answers \<lparr>status_code = 503, rate_limit_remaining = Absent\<rparr>))) = 1025"
proof -
  let ?up = "\<lambda>i::nat. Answers \<lparr>status_code = 503, rate_limit_remaining = Absent\<rparr>"
  have t: "\<And>i. i \<le> 1024 \<Longrightarrow> transient (?up i)"
    by (simp add: RETRYABLE_STATUS_CODES_def)
  have big: "(1026::int) \<le> 1026" by simp
  have s1: "fst (retry_github_request_s1 None 1026 ?up) = Raised OverflowError
       \<and> schedule (snd (retry_github_request_s1 None 1026 ?up))
           = concat (map round_trip [0..<1024]) @ [HttpRequest]"
    using t big by (rule retry_s1_overflows)
  have s6: "fst (retry_github_request_s6 None 1026 ?up) = Raised OverflowError
       \<and> schedule (snd (retry_github_request_s6 None 1026 ?up))
           = concat (map round_trip [0..<1024]) @ [HttpRequest]"
    using t big by (rule retry_s6_overflows)
  have "http_requests (snd (retry_github_request_s1 None 1026 ?up)) = Suc 1024"
    using count_of_schedule [of "snd (retry_github_request_s1 None 1026 ?up)" 1024] s1 by blast
  moreover
  have "http_requests (snd (retry_github_request_s6 None 1026 ?up)) = Suc 1024"
    using count_of_schedule [of "snd (retry_github_request_s6 None 1026 ?up)" 1024] s6 by blast
  ultimately show ?thesis using s1 s6 by simp
qed

text \<open>
  Claim C1, amended. Let the attempt budget be \<open>N\<close> with \<open>1 \<le> N \<le> 1025\<close> and let the
  upstream answer every attempt with the same retriable status \<open>s\<close> (429, 500, 502, 503 or
  504). Then either copy of \<open>retry_github_request\<close> sends exactly \<open>N\<close> HTTP requests, sleeps
  \<open>RETRY_DELAY_BASE * 2 ^ i\<close> seconds between attempt \<open>i\<close> and attempt \<open>i + 1\<close>
  (\<open>i\<close> from 0 to \<open>N - 2\<close>) and at no other point, and raises the \<open>HTTPStatusError\<close> that
  carries the last response, whose status is \<open>s\<close>. If instead attempt \<open>k \<le> 1024\<close>, within
  the budget \<open>M\<close> and after \<open>k\<close> transient replies, is answered with a 2xx response, the
  call returns that response at once: \<open>k + 1\<close> requests and the \<open>k\<close> backoff sleeps before
  it, nothing after it. The responses are taken with a quota header that is absent or an
  integer, which is how the GitHub API sends it.
\<close>

theorem retry_retriable_budget_and_backoff:
  "(1 \<le> N \<and> N \<le> 1025 \<and> s \<in> RETRYABLE_STATUS_CODES
      \<and> (\<forall>i<nat N. \<exists>r. up i = Answers r \<and> status_code r = s
                           \<and> rate_limit_remaining r \<noteq> Garbled)
    \<longrightarrow> (\<exists>r. up (nat N - 1) = Answers r \<and> status_code r = s
            \<and> fst (retry_github_request_s1 ctx N up) = Raised (HTTPStatusError (Some r))
            \<and> fst (retry_github_request_s6 ctx N up) = Raised (HTTPStatusError (Some r)))
        \<and> http_requests (snd (retry_github_request_s1 ctx N up)) = nat N
        \<and> http_requests (snd (retry_github_request_s6 ctx N up)) = nat N
        \<and> sleeps (snd (retry_github_request_s1 ctx N up))
            = map (\<lambda>i. RETRY_DELAY_BASE * 2 ^ i) [0..<nat N - 1]
        \<and> sleeps (snd (retry_github_request_s6 ctx N up))
            = map (\<lambda>i. RETRY_DELAY_BASE * 2 ^ i) [0..<nat N - 1]
        \<and> schedule (snd (retry_github_request_s1 ctx N up))
            = concat (map round_trip [0..<nat N - 1]) @ [HttpRequest]
        \<and> schedule (snd (retry_github_request_s6 ctx N up))
            = concat (map round_trip [0..<nat N - 1]) @ [HttpRequest])
   \<and> (int k < M \<and> k \<le> 1024 \<and> (\<forall>i<k. transient (up' i)) \<and> up' k = Answers r'
        \<and> 200 \<le> status_code r' \<and> status_code r' \<le> 299
        \<and> rate_limit_remaining r' \<noteq> Garbled
    \<longrightarrow> fst (retry_github_request_s1 ctx M up') = Returned r'
        \<and> fst (retry_github_request_s6 ctx M up') = Returned r'
        \<and> http_requests (snd (retry_github_request_s1 ctx M up')) = k + 1
        \<and> http_requests (snd (retry_github_request_s6 ctx M up')) = k + 1
        \<and> sleeps (snd (retry_github_request_s1 ctx M up'))
            = map (\<lambda>i. RETRY_DELAY_BASE * 2 ^ i) [0..<k]
        \<and> sleeps (snd (retry_github_request_s6 ctx M up'))
            = map (\<lambda>i. RETRY_DELAY_BASE * 2 ^ i) [0..<k]
        \<and> schedule (snd (retry_github_request_s1 ctx M up'))
            = concat (map round_trip [0..<k]) @ [HttpRequest]
        \<and> schedule (snd (retry_github_request_s6 ctx M up'))
            = concat (map round_trip [0..<k]) @ [HttpRequest])"
proof (intro conjI impI)
  assume a: "1 \<le> N \<and> N \<le> 1025 \<and> s \<in> RETRYABLE_STATUS_CODES
      \<and> (\<forall>i<nat N. \<exists>r. up i = Answers r \<and> status_code r = s
                           \<and> rate_limit_remaining r \<noteq> Garbled)"
  define m where "m = nat N - 1"
  have N: "1 \<le> N" "N \<le> 1025" using a by simp_all
  have m: "int m < N" "\<not> int m < N - 1" "m < nat N" "Suc m = nat N"
    using N unfolding m_def by linarith+
  have small: "m \<le> 1024" using N unfolding m_def by linarith
  obtain r where r: "up m = Answers r" "status_code r = s" "rate_limit_remaining r \<noteq> Garbled"
    using a m(3) by blast
  have before: "\<And>i. i < m \<Longrightarrow> transient (up i)"
  proof -
    fix i assume "i < m"
    then have "i < nat N" using m(3) by simp
    then obtain q where "up i = Answers q" "status_code q = s" "rate_limit_remaining q \<noteq> Garbled"
      using a by blast
    then show "transient (up i)" using a by simp
  qed
  have bad: "raise_for_status r = Some (HTTPStatusError (Some r))"
    using a r(2) by (intro retryable_not_success) simp
  have final: "status_code r \<in> RETRYABLE_STATUS_CODES \<longrightarrow> \<not> int m < N - 1"
    using m(2) by simp
  have s1: "fst (retry_github_request_s1 ctx N up) = Raised (HTTPStatusError (Some r))
       \<and> schedule (snd (retry_github_request_s1 ctx N up))
           = concat (map round_trip [0..<m]) @ [HttpRequest]"
    using before m(1) small r(1) r(3) bad final by (rule retry_s1_ends_raising)
  have s6: "fst (retry_github_request_s6 ctx N up) = Raised (HTTPStatusError (Some r))
       \<and> schedule (snd (retry_github_request_s6 ctx N up))
           = concat (map round_trip [0..<m]) @ [HttpRequest]"
    using before m(1) small r(1) r(3) bad final by (rule retry_s6_ends_raising)
  show "\<exists>r. up (nat N - 1) = Answers r \<and> status_code r = s
            \<and> fst (retry_github_request_s1 ctx N up) = Raised (HTTPStatusError (Some r))
            \<and> fst (retry_github_request_s6 ctx N up) = Raised (HTTPStatusError (Some r))"
    using r s1 s6 m_def by blast
  show "http_requests (snd (retry_github_request_s1 ctx N up)) = nat N"
    using count_of_schedule [of "snd (retry_github_request_s1 ctx N up)" m] s1 m(4) by simp
  show "http_requests (snd (retry_github_request_s6 ctx N up)) = nat N"
    using count_of_schedule [of "snd (retry_github_request_s6 ctx N up)" m] s6 m(4) by simp
  show "sleeps (snd (retry_github_request_s1 ctx N up))
            = map (\<lambda>i. RETRY_DELAY_BASE * 2 ^ i) [0..<nat N - 1]"
    using count_of_schedule [of "snd (retry_github_request_s1 ctx N up)" m] s1
    by (simp add: m_def)
  show "sleeps (snd (retry_github_request_s6 ctx N up))
            = map (\<lambda>i. RETRY_DELAY_BASE * 2 ^ i) [0..<nat N - 1]"
    using count_of_schedule [of "snd (retry_github_request_s6 ctx N up)" m] s6
    by (simp add: m_def)
  show "schedule (snd (retry_github_request_s1 ctx N up))
            = concat (map round_trip [0..<nat N - 1]) @ [HttpRequest]"
    using s1 by (simp add: m_def)
  show "schedule (snd (retry_github_request_s6 ctx N up))
            = concat (map round_trip [0..<nat N - 1]) @ [HttpRequest]"
    using s6 by (simp add: m_def)
next
  assume b: "int k < M \<and> k \<le> 1024 \<and> (\<forall>i<k. transient (up' i)) \<and> up' k = Answers r'
        \<and> 200 \<le> status_code r' \<and> status_code r' \<le> 299
        \<and> rate_limit_remaining r' \<noteq> Garbled"
  have before: "\<And>i. i < k \<Longrightarrow> transient (up' i)" using b by blast
  have s1: "fst (retry_github_request_s1 ctx M up') = Returned r'
       \<and> schedule (snd (retry_github_request_s1 ctx M up'))
           = concat (map round_trip [0..<k]) @ [HttpRequest]"
    using before b by (intro retry_s1_ends_returning) simp_all
  have s6: "fst (retry_github_request_s6 ctx M up') = Returned r'
       \<and> schedule (snd (retry_github_request_s6 ctx M up'))
           = concat (map round_trip [0..<k]) @ [HttpRequest]"
    using before b by (intro retry_s6_ends_returning) simp_all
  show "fst (retry_github_request_s1 ctx M up') = Returned r'" using s1 by simp
  show "fst (retry_github_request_s6 ctx M up') = Returned r'" using s6 by simp
  show "http_requests (snd (retry_github_request_s1 ctx M up')) = k + 1"
    using count_of_schedule [of "snd (retry_github_request_s1 ctx M up')" k] s1 by simp
  show "http_requests (snd (retry_github_request_s6 ctx M up')) = k + 1"
    using count_of_schedule [of "snd (retry_github_request_s6 ctx M up')" k] s6 by simp
  show "sleeps (snd (retry_github_request_s1 ctx M up'))
            = map (\<lambda>i. RETRY_DELAY_BASE * 2 ^ i) [0..<k]"
    using count_of_schedule [of "snd (retry_github_request_s1 ctx M up')" k] s1
    by simp
  show "sleeps (snd (retry_github_request_s6 ctx M up'))
            = map (\<lambda>i. RETRY_DELAY_BASE * 2 ^ i) [0..<k]"
    using count_of_schedule [of "snd (retry_github_request_s6 ctx M up')" k] s6
    by simp
  show "schedule (snd (retry_github_request_s1 ctx M up'))
            = concat (map round_trip [0..<k]) @ [HttpRequest]"
    using s1 by simp
  show "schedule (snd (retry_github_request_s6 ctx M up'))
            = concat (map round_trip [0..<k]) @ [HttpRequest]"
    using s6 by simp
qed

text \<open>
  Three attempts answered 503, 503, 503: three requests, sleeps of 1 and 2 seconds, and the
  error of the last response. Answered 503, 503, 200: the 200 response, after exactly two
  sleeps.
\<close>

theorem retry_retriable_budget_and_backoff_witness:
  "fst (retry_github_request_s1 None 3
          (\<lambda>i. Answers \<lparr>status_code = 503, rate_limit_remaining = Absent\<rparr>))
     = Raised (HTTPStatusError (Some \<lparr>status_code = 503, rate_limit_remaining = Absent\<rparr>))
   \<and> fst (retry_github_request_s6 None 3
          (\<lambda>i. Answers \<lparr>status_code = 503, rate_limit_remaining = Absent\<rparr>))
     = Raised (HTTPStatusError (Some \<lparr>status_code = 503, rate_limit_remaining = Absent\<rparr>))
   \<and> http_requests (snd (retry_github_request_s1 None 3
          (\<lambda>i. Answers \<lparr>status_code = 503, rate_limit_remaining = Absent\<rparr>))) = 3
   \<and> sleeps (snd (retry_github_request_s1 None 3
          (\<lambda>i. Answers \<lparr>status_code = 503, rate_limit_remaining = Absent\<rparr>))) = [1, 2]
   \<and> fst (retry_github_request_s1 None 3
          (\<lambda>i. Answers \<lparr>status_code = (if i < 2 then 503 else 200),
                            rate_limit_remaining = Numeric 4999\<rparr>))
     = Returned \<lparr>status_code = 200, rate_limit_remaining = Numeric 4999\<rparr>
   \<and> fst (retry_github_request_s6 None 3
          (\<lambda>i. Answers \<lparr>status_code = (if i < 2 then 503 else 200),
                            rate_limit_remaining = Numeric 4999\<rparr>))
     = Returned \<lparr>status_code = 200, rate_limit_remaining = Numeric 4999\<rparr>
   \<and> http_requests (snd (retry_github_request_s1 None 3
          (\<lambda>i. Answers \<lparr>status_code = (if i < 2 then 503 else 200),
                            rate_limit_remaining = Numeric 4999\<rparr>))) = 3
   \<and> sleeps (snd (retry_github_request_s1 None 3
          (\<lambda>i. Answers \<lparr>status_code = (if i < 2 then 503 else 200),
                            rate_limit_remaining = Numeric 4999\<rparr>))) = [1, 2]"
  using retry_retriable_budget_and_backoff
          [where N = 3 and s = 503 and ctx = None
             and up = "\<lambda>i. Answers \<lparr>status_code = 503, rate_limit_remaining = Absent\<rparr>"
             and k = 2 and M = 3
             and up' = "\<lambda>i. Answers \<lparr>status_code = (if i < 2 then 503 else 200),
                                         rate_limit_remaining = Numeric 4999\<rparr>"
             and r' = "\<lparr>status_code = 200, rate_limit_remaining = Numeric 4999\<rparr>"]
  by (simp add: RETRYABLE_STATUS_CODES_def RETRY_DELAY_BASE_def upt_conv_Cons)

subsection \<open>A non-retriable client error ends the call\<close>

text \<open>
  Claim C2. A response with a 4xx status other than 429 ends the call at the attempt that
  receives it, whatever budget remains: either copy raises the \<open>HTTPStatusError\<close> of that
  response, sends no further request and does not sleep after it. At the first attempt
  (\<open>k = 0\<close>) this is exactly one HTTP request and no backoff delay at all. The quota
  header of the responses is absent or an integer; a response that comes after earlier
  retries comes at an attempt \<open>k \<le> 1024\<close>, the last one a retry can lead to.
\<close>

theorem retry_terminal_4xx_single_attempt:
  assumes "int k < N" and "\<forall>i<k. transient (up i)"
    and "up k = Answers r" and "rate_limit_remaining r \<noteq> Garbled"
    and "400 \<le> status_code r" and "status_code r \<le> 499" and "status_code r \<noteq> 429"
    and "k \<le> 1024"
  shows "fst (retry_github_request_s1 ctx N up) = Raised (HTTPStatusError (Some r))
       \<and> fst (retry_github_request_s6 ctx N up) = Raised (HTTPStatusError (Some r))
       \<and> http_requests (snd (retry_github_request_s1 ctx N up)) = k + 1
       \<and> http_requests (snd (retry_github_request_s6 ctx N up)) = k + 1
       \<and> sleeps (snd (retry_github_request_s1 ctx N up))
            = map (\<lambda>i. RETRY_DELAY_BASE * 2 ^ i) [0..<k]
       \<and> sleeps (snd (retry_github_request_s6 ctx N up))
            = map (\<lambda>i. RETRY_DELAY_BASE * 2 ^ i) [0..<k]
       \<and> schedule (snd (retry_github_request_s1 ctx N up))
            = concat (map round_trip [0..<k]) @ [HttpRequest]
       \<and> schedule (snd (retry_github_request_s6 ctx N up))
            = concat (map round_trip [0..<k]) @ [HttpRequest]"
proof -
  have before: "\<And>i. i < k \<Longrightarrow> transient (up i)" using assms(2) by blast
  have bad: "raise_for_status r = Some (HTTPStatusError (Some r))"
    using assms(5) by (simp add: raise_for_status_def)
  have final: "status_code r \<in> RETRYABLE_STATUS_CODES \<longrightarrow> \<not> int k < N - 1"
    using assms(6,7) by (auto simp: RETRYABLE_STATUS_CODES_def)
  have s1: "fst (retry_github_request_s1 ctx N up) = Raised (HTTPStatusError (Some r))
       \<and> schedule (snd (retry_github_request_s1 ctx N up))
           = concat (map round_trip [0..<k]) @ [HttpRequest]"
    using before assms(1,8,3,4) bad final by (rule retry_s1_ends_raising)
  have s6: "fst (retry_github_request_s6 ctx N up) = Raised (HTTPStatusError (Some r))
       \<and> schedule (snd (retry_github_request_s6 ctx N up))
           = concat (map round_trip [0..<k]) @ [HttpRequest]"
    using before assms(1,8,3,4) bad final by (rule retry_s6_ends_raising)
  show ?thesis
    using s1 s6
      count_of_schedule [of "snd (retry_github_request_s1 ctx N up)" k]
      count_of_schedule [of "snd (retry_github_request_s6 ctx N up)" k]
    by simp
qed

text \<open>A 404 at the first of three attempts: one request, no sleep.\<close>

theorem retry_terminal_4xx_single_attempt_witness:
  "fst (retry_github_request_s1 None 3
          (\<lambda>i. Answers \<lparr>status_code = 404, rate_limit_remaining = Numeric 57\<rparr>))
     = Raised (HTTPStatusError (Some \<lparr>status_code = 404, rate_limit_remaining = Numeric 57\<rparr>))
   \<and> fst (retry_github_request_s6 None 3
          (\<lambda>i. Answers \<lparr>status_code = 404, rate_limit_remaining = Numeric 57\<rparr>))
     = Raised (HTTPStatusError (Some \<lparr>status_code = 404, rate_limit_remaining = Numeric 57\<rparr>))
   \<and> http_requests (snd (retry_github_request_s1 None 3
          (\<lambda>i. Answers \<lparr>status_code = 404, rate_limit_remaining = Numeric 57\<rparr>))) = 1
   \<and> http_requests (snd (retry_github_request_s6 None 3
          (\<lambda>i. Answers \<lparr>status_code = 404, rate_limit_remaining = Numeric 57\<rparr>))) = 1
   \<and> sleeps (snd (retry_github_request_s1 None 3
          (\<lambda>i. Answers \<lparr>status_code = 404, rate_limit_remaining = Numeric 57\<rparr>))) = []
   \<and> sleeps (snd (retry_github_request_s6 None 3
          (\<lambda>i. Answers \<lparr>status_code = 404, rate_limit_remaining = Numeric 57\<rparr>))) = []"
  using retry_terminal_4xx_single_attempt
          [where k = 0 and N = 3 and ctx = None
             and up = "\<lambda>i. Answers \<lparr>status_code = 404, rate_limit_remaining = Numeric 57\<rparr>"
             and r = "\<lparr>status_code = 404, rate_limit_remaining = Numeric 57\<rparr>"]
  by simp

subsection \<open>The notifications do not steer the call\<close>

lemma without_info_info: "without_info (info ctx n) = []"
  by (cases ctx) (simp_all add: info_def without_info_def)

lemma info_None: "info None n = []"
  by (simp add: info_def)

lemma without_info_append: "without_info (xs @ ys) = without_info xs @ without_info ys"
  by (simp add: without_info_def)

lemma without_info_plain:
  "without_info limited_request = limited_request" "without_info [Sleep d] = [Sleep d]"
  "without_info [] = []"
  by (simp_all add: without_info_def limited_request_def)

lemmas without_info_simps = without_info_info without_info_append without_info_plain info_None

lemma quota_check_s1_ctx:
  "(case quota_check_s1 ctx r of Inl e \<Rightarrow> quota_check_s1 None r = Inl e
      | Inr qs \<Rightarrow> quota_check_s1 None r = Inr [] \<and> without_info qs = []
                   \<and> http_requests qs = 0)"
  by (cases "rate_limit_remaining r"; cases ctx)
     (simp_all add: quota_check_s1_def info_def without_info_def http_requests_def)

lemma quota_check_s6_ctx:
  "(case quota_check_s6 ctx r of Inl e \<Rightarrow> quota_check_s6 None r = Inl e
      | Inr qs \<Rightarrow> quota_check_s6 None r = Inr [] \<and> without_info qs = []
                   \<and> http_requests qs = 0)"
  by (cases "rate_limit_remaining r"; cases ctx)
     (simp_all add: quota_check_s6_def info_def without_info_def http_requests_def)

lemma try_body_s1_ctx:
  "fst (try_body_s1 ctx N a rep) = fst (try_body_s1 None N a rep)
   \<and> without_info (snd (try_body_s1 ctx N a rep)) = snd (try_body_s1 None N a rep)"
proof (cases rep)
  case (Answers r)
  show ?thesis
    using quota_check_s1_ctx [where ctx = ctx and r = r] Answers
    by (cases "quota_check_s1 ctx r")
       (simp_all add: try_body_s1_def without_info_simps split: option.splits sum.splits)
qed (simp_all add: try_body_s1_def without_info_simps)

lemma try_body_s6_ctx:
  "fst (try_body_s6 ctx N a rep) = fst (try_body_s6 None N a rep)
   \<and> without_info (snd (try_body_s6 ctx N a rep)) = snd (try_body_s6 None N a rep)"
proof (cases rep)
  case (Answers r)
  show ?thesis
    using quota_check_s6_ctx [where ctx = ctx and r = r] Answers
    by (cases "quota_check_s6 ctx r")
       (simp_all add: try_body_s6_def without_info_simps split: option.splits sum.splits)
qed (simp_all add: try_body_s6_def without_info_simps)

lemma handlers_s1_ctx:
  "fst (handlers_s1 ctx N a lx sig) = fst (handlers_s1 None N a lx sig)
   \<and> fst (snd (handlers_s1 ctx N a lx sig)) = fst (snd (handlers_s1 None N a lx sig))
   \<and> without_info (snd (snd (handlers_s1 ctx N a lx sig))) = snd (snd (handlers_s1 None N a lx sig))"
  by (cases "backoff_delay a")
     (simp_all add: handlers_s1_def without_info_simps
        split: signal.splits exc.splits option.splits)

lemma handlers_s6_ctx:
  "fst (handlers_s6 ctx N a lx sig) = fst (handlers_s6 None N a lx sig)
   \<and> fst (snd (handlers_s6 ctx N a lx sig)) = fst (snd (handlers_s6 None N a lx sig))
   \<and> without_info (snd (snd (handlers_s6 ctx N a lx sig))) = snd (snd (handlers_s6 None N a lx sig))"
  by (cases "backoff_delay a")
     (simp_all add: handlers_s6_def without_info_simps
        split: signal.splits exc.splits option.splits)

lemma iteration_s1_ctx:
  "fst (iteration_s1 ctx N a lx rep) = fst (iteration_s1 None N a lx rep)
   \<and> fst (snd (iteration_s1 ctx N a lx rep)) = fst (snd (iteration_s1 None N a lx rep))
   \<and> without_info (snd (snd (iteration_s1 ctx N a lx rep)))
       = snd (snd (iteration_s1 None N a lx rep))"
proof -
  obtain sig evs where tb: "try_body_s1 ctx N a rep = (sig, evs)"
    by (cases "try_body_s1 ctx N a rep") auto
  have tb0: "try_body_s1 None N a rep = (sig, without_info evs)"
    using try_body_s1_ctx [where ctx = ctx and N = N and a = a and rep = rep] tb
    by (cases "try_body_s1 None N a rep") simp
  obtain s' l' e' where h: "handlers_s1 ctx N a lx sig = (s', l', e')"
    by (cases "handlers_s1 ctx N a lx sig") auto
  have h0: "handlers_s1 None N a lx sig = (s', l', without_info e')"
    using handlers_s1_ctx [where ctx = ctx and N = N and a = a and lx = lx and sig = sig] h
    by (cases "handlers_s1 None N a lx sig") simp
  show ?thesis
    by (simp add: iteration_s1_def tb tb0 h h0 without_info_append)
qed

lemma iteration_s6_ctx:
  "fst (iteration_s6 ctx N a lx rep) = fst (iteration_s6 None N a lx rep)
   \<and> fst (snd (iteration_s6 ctx N a lx rep)) = fst (snd (iteration_s6 None N a lx rep))
   \<and> without_info (snd (snd (iteration_s6 ctx N a lx rep)))
       = snd (snd (iteration_s6 None N a lx rep))"
proof -
  obtain sig evs where tb: "try_body_s6 ctx N a rep = (sig, evs)"
    by (cases "try_body_s6 ctx N a rep") auto
  have tb0: "try_body_s6 None N a rep = (sig, without_info evs)"
    using try_body_s6_ctx [where ctx = ctx and N = N and a = a and rep = rep] tb
    by (cases "try_body_s6 None N a rep") simp
  obtain s' l' e' where h: "handlers_s6 ctx N a lx sig = (s', l', e')"
    by (cases "handlers_s6 ctx N a lx sig") auto
  have h0: "handlers_s6 None N a lx sig = (s', l', without_info e')"
    using handlers_s6_ctx [where ctx = ctx and N = N and a = a and lx = lx and sig = sig] h
    by (cases "handlers_s6 None N a lx sig") simp
  show ?thesis
    by (simp add: iteration_s6_def tb tb0 h h0 without_info_append)
qed

lemma attempts_s1_ctx:
  "fst (attempts_s1 ctx N up a lx) = fst (attempts_s1 None N up a lx)
   \<and> without_info (snd (attempts_s1 ctx N up a lx)) = snd (attempts_s1 None N up a lx)"
proof (induction ctx N up a lx rule: attempts_s1.induct)
  case (1 ctx N up a lx)
  show ?case
  proof (cases "int a < N")
    case False
    then show ?thesis
      by (simp add: attempts_s1.simps [of _ N up a lx] without_info_plain)
  next
    case True
    obtain sig l1 evs where it: "iteration_s1 ctx N a lx (up a) = (sig, l1, evs)"
      by (cases "iteration_s1 ctx N a lx (up a)") auto
    then have it0: "iteration_s1 None N a lx (up a) = (sig, l1, without_info evs)"
      using iteration_s1_ctx [of ctx N a lx "up a"]
      by (cases "iteration_s1 None N a lx (up a)") simp
    show ?thesis
    proof (cases sig)
      case Continue
      have IH: "fst (attempts_s1 ctx N up (Suc a) l1) = fst (attempts_s1 None N up (Suc a) l1)
         \<and> without_info (snd (attempts_s1 ctx N up (Suc a) l1))
             = snd (attempts_s1 None N up (Suc a) l1)"
        using "1.IH" True it Continue by auto
      show ?thesis
        using True it it0 Continue IH
        by (simp add: attempts_s1.simps [of _ N up a lx] prepend_def without_info_append)
    next
      case (Return r)
      then show ?thesis
        using True it it0 by (simp add: attempts_s1.simps [of _ N up a lx])
    next
      case (Raise e)
      then show ?thesis
        using True it it0 by (simp add: attempts_s1.simps [of _ N up a lx])
    qed
  qed
qed


lemma attempts_s6_ctx:
  "fst (attempts_s6 ctx N up a lx) = fst (attempts_s6 None N up a lx)
   \<and> without_info (snd (attempts_s6 ctx N up a lx)) = snd (attempts_s6 None N up a lx)"
proof (induction ctx N up a lx rule: attempts_s6.induct)
  case (1 ctx N up a lx)
  show ?case
  proof (cases "int a < N")
    case False
    then show ?thesis
      by (simp add: attempts_s6.simps [of _ N up a lx] without_info_plain)
  next
    case True
    obtain sig l1 evs where it: "iteration_s6 ctx N a lx (up a) = (sig, l1, evs)"
      by (cases "iteration_s6 ctx N a lx (up a)") auto
    then have it0: "iteration_s6 None N a lx (up a) = (sig, l1, without_info evs)"
      using iteration_s6_ctx [of ctx N a lx "up a"]
      by (cases "iteration_s6 None N a lx (up a)") simp
    show ?thesis
    proof (cases sig)
      case Continue
      have IH: "fst (attempts_s6 ctx N up (Suc a) l1) = fst (attempts_s6 None N up (Suc a) l1)
         \<and> without_info (snd (attempts_s6 ctx N up (Suc a) l1))
             = snd (attempts_s6 None N up (Suc a) l1)"
        using "1.IH" True it Continue by auto
      show ?thesis
        using True it it0 Continue IH
        by (simp add: attempts_s6.simps [of _ N up a lx] prepend_def without_info_append)
    next
      case (Return r)
      then show ?thesis
        using True it it0 by (simp add: attempts_s6.simps [of _ N up a lx])
    next
      case (Raise e)
      then show ?thesis
        using True it it0 by (simp add: attempts_s6.simps [of _ N up a lx])
    qed
  qed
qed

text \<open>
  Claim C9. For every budget and every sequence of upstream replies, either copy of
  \<open>retry_github_request\<close> gives the same outcome (the returned response or the raised
  error) with a \<open>ctx\<close> as without one, and does the same things in the same order:
  the trace with a \<open>ctx\<close>, its notifications taken out, is the trace without. This
  includes the low-quota advisory, sent below 100 remaining requests in
  \<open>mcp-server-1\<close> and below 10 in \<open>mcp-server-6\<close>, and holds also for a quota header
  that does not parse: \<open>int()\<close> runs before \<open>ctx\<close> is looked at.
\<close>

theorem retry_outcome_independent_of_ctx:
  "fst (retry_github_request_s1 ctx N up) = fst (retry_github_request_s1 None N up)
   \<and> fst (retry_github_request_s6 ctx N up) = fst (retry_github_request_s6 None N up)
   \<and> without_info (snd (retry_github_request_s1 ctx N up))
        = snd (retry_github_request_s1 None N up)
   \<and> without_info (snd (retry_github_request_s6 ctx N up))
        = snd (retry_github_request_s6 None N up)"
proof -
  have "fst (attempts_s1 ctx N up 0 None) = fst (attempts_s1 None N up 0 None)
      \<and> without_info (snd (attempts_s1 ctx N up 0 None)) = snd (attempts_s1 None N up 0 None)"
    by (rule attempts_s1_ctx)
  moreover
  have "fst (attempts_s6 ctx N up 0 None) = fst (attempts_s6 None N up 0 None)
      \<and> without_info (snd (attempts_s6 ctx N up 0 None)) = snd (attempts_s6 None N up 0 None)"
    by (rule attempts_s6_ctx)
  ultimately show ?thesis
    by (simp add: retry_github_request_s1_def retry_github_request_s6_def)
qed

text \<open>
  A run with 7 requests of quota left, below both thresholds: 503, then 200.
\<close>

lemma run_without_ctx:
  "retry_github_request_s1 None 3
     (\<lambda>i. Answers \<lparr>status_code = (if i < 1 then 503 else 200),
                       rate_limit_remaining = Numeric 7\<rparr>)
   = (Returned \<lparr>status_code = 200, rate_limit_remaining = Numeric 7\<rparr>,
      [AcquirePermit, HttpRequest, Sleep 1, AcquirePermit, HttpRequest])"
  "retry_github_request_s6 None 3
     (\<lambda>i. Answers \<lparr>status_code = (if i < 1 then 503 else 200),
                       rate_limit_remaining = Numeric 7\<rparr>)
   = (Returned \<lparr>status_code = 200, rate_limit_remaining = Numeric 7\<rparr>,
      [AcquirePermit, HttpRequest, Sleep 1, AcquirePermit, HttpRequest])"
  by (simp_all add: retry_github_request_s1_def attempts_s1.simps iteration_s1_def
      try_body_s1_def handlers_s1_def quota_check_s1_def
      retry_github_request_s6_def attempts_s6.simps iteration_s6_def
      try_body_s6_def handlers_s6_def quota_check_s6_def
      info_def limited_request_def backoff_delay_def
      RETRY_DELAY_BASE_def RETRYABLE_STATUS_CODES_def raise_or_return_def raise_for_status_def
      prepend_def)

theorem retry_outcome_independent_of_ctx_witness:
  "fst (retry_github_request_s1 (Some Context) 3
          (\<lambda>i. Answers \<lparr>status_code = (if i < 1 then 503 else 200),
                            rate_limit_remaining = Numeric 7\<rparr>))
     = Returned \<lparr>status_code = 200, rate_limit_remaining = Numeric 7\<rparr>
   \<and> fst (retry_github_request_s6 (Some Context) 3
          (\<lambda>i. Answers \<lparr>status_code = (if i < 1 then 503 else 200),
                            rate_limit_remaining = Numeric 7\<rparr>))
     = Returned \<lparr>status_code = 200, rate_limit_remaining = Numeric 7\<rparr>
   \<and> without_info (snd (retry_github_request_s1 (Some Context) 3
          (\<lambda>i. Answers \<lparr>status_code = (if i < 1 then 503 else 200),
                            rate_limit_remaining = Numeric 7\<rparr>)))
     = [AcquirePermit, HttpRequest, Sleep 1, AcquirePermit, HttpRequest]
   \<and> without_info (snd (retry_github_request_s6 (Some Context) 3
          (\<lambda>i. Answers \<lparr>status_code = (if i < 1 then 503 else 200),
                            rate_limit_remaining = Numeric 7\<rparr>)))
     = [AcquirePermit, HttpRequest, Sleep 1, AcquirePermit, HttpRequest]"
  using retry_outcome_independent_of_ctx
          [where ctx = "Some Context" and N = 3
             and up = "\<lambda>i. Answers \<lparr>status_code = (if i < 1 then 503 else 200),
                                        rate_limit_remaining = Numeric 7\<rparr>"]
    run_without_ctx
  by simp

subsection \<open>Every call ends with a response or an error\<close>

lemma http_requests_append: "http_requests (xs @ ys) = http_requests xs + http_requests ys"
  by (simp add: http_requests_def)

lemma http_requests_info: "http_requests (info ctx n) = 0"
  by (cases ctx) (simp_all add: info_def http_requests_def)

lemma http_requests_plain:
  "http_requests limited_request = 1" "http_requests [Sleep d] = 0" "http_requests [] = 0"
  by (simp_all add: http_requests_def limited_request_def)

lemmas http_requests_simps = http_requests_append http_requests_info http_requests_plain

lemma backoff_delay_error: "backoff_delay a = Inl e \<Longrightarrow> e = OverflowError"
  by (simp add: backoff_delay_def split: if_splits)

lemma quota_check_s1_error: "quota_check_s1 ctx r = Inl e \<Longrightarrow> e = ValueError InvalidLiteral"
  by (cases "rate_limit_remaining r") (simp_all add: quota_check_s1_def)

lemma quota_check_s6_error: "quota_check_s6 ctx r = Inl e \<Longrightarrow> e = ValueError InvalidLiteral"
  by (cases "rate_limit_remaining r") (simp_all add: quota_check_s6_def)

lemma try_body_s1_facts:
  "http_requests (snd (try_body_s1 ctx N a rep)) = 1
   \<and> fst (try_body_s1 ctx N a rep) \<noteq> Raise (HTTPStatusError None)
   \<and> (fst (try_body_s1 ctx N a rep) = Continue \<longrightarrow> int a < N - 1)"
proof (cases rep)
  case (Answers r)
  show ?thesis
    using quota_check_s1_ctx [where ctx = ctx and r = r] Answers
      quota_check_s1_error [where ctx = ctx and r = r]
    by (cases "quota_check_s1 ctx r")
       (auto simp: try_body_s1_def http_requests_simps raise_or_return_def raise_for_status_def
             backoff_delay_def split: option.splits)
qed (simp_all add: try_body_s1_def http_requests_simps)

lemma try_body_s6_facts:
  "http_requests (snd (try_body_s6 ctx N a rep)) = 1
   \<and> fst (try_body_s6 ctx N a rep) \<noteq> Raise (HTTPStatusError None)
   \<and> (fst (try_body_s6 ctx N a rep) = Continue \<longrightarrow> int a < N - 1)"
proof (cases rep)
  case (Answers r)
  show ?thesis
    using quota_check_s6_ctx [where ctx = ctx and r = r] Answers
      quota_check_s6_error [where ctx = ctx and r = r]
    by (cases "quota_check_s6 ctx r")
       (auto simp: try_body_s6_def http_requests_simps raise_or_return_def raise_for_status_def
             backoff_delay_def split: option.splits)
qed (simp_all add: try_body_s6_def http_requests_simps)

lemma handlers_s1_facts:
  "http_requests (snd (snd (handlers_s1 ctx N a lx sig))) = 0
   \<and> (sig \<noteq> Raise (HTTPStatusError None)
        \<longrightarrow> fst (handlers_s1 ctx N a lx sig) \<noteq> Raise (HTTPStatusError None))
   \<and> (fst (handlers_s1 ctx N a lx sig) = Continue \<longrightarrow> sig = Continue \<or> int a < N - 1)"
  using backoff_delay_error [of a]
  by (cases "backoff_delay a")
     (auto simp: handlers_s1_def http_requests_simps
        split: signal.splits exc.splits option.splits)

lemma handlers_s6_facts:
  "http_requests (snd (snd (handlers_s6 ctx N a lx sig))) = 0
   \<and> (sig \<noteq> Raise (HTTPStatusError None)
        \<longrightarrow> fst (handlers_s6 ctx N a lx sig) \<noteq> Raise (HTTPStatusError None))
   \<and> (fst (handlers_s6 ctx N a lx sig) = Continue \<longrightarrow> sig = Continue \<or> int a < N - 1)"
  using backoff_delay_error [of a]
  by (cases "backoff_delay a")
     (auto simp: handlers_s6_def http_requests_simps
        split: signal.splits exc.splits option.splits)

lemma iteration_s1_facts:
  "http_requests (snd (snd (iteration_s1 ctx N a lx rep))) = 1
   \<and> fst (iteration_s1 ctx N a lx rep) \<noteq> Raise (HTTPStatusError None)
   \<and> (fst (iteration_s1 ctx N a lx rep) = Continue \<longrightarrow> int a < N - 1)"
proof -
  obtain sig evs where tb: "try_body_s1 ctx N a rep = (sig, evs)"
    by (cases "try_body_s1 ctx N a rep") auto
  obtain s' l' e' where h: "handlers_s1 ctx N a lx sig = (s', l', e')"
    by (cases "handlers_s1 ctx N a lx sig") auto
  show ?thesis
    using try_body_s1_facts [where ctx = ctx and N = N and a = a and rep = rep]
      handlers_s1_facts [where ctx = ctx and N = N and a = a and lx = lx and sig = sig]
    by (auto simp: iteration_s1_def tb h http_requests_append)
qed

lemma iteration_s6_facts:
  "http_requests (snd (snd (iteration_s6 ctx N a lx rep))) = 1
   \<and> fst (iteration_s6 ctx N a lx rep) \<noteq> Raise (HTTPStatusError None)
   \<and> (fst (iteration_s6 ctx N a lx rep) = Continue \<longrightarrow> int a < N - 1)"
proof -
  obtain sig evs where tb: "try_body_s6 ctx N a rep = (sig, evs)"
    by (cases "try_body_s6 ctx N a rep") auto
  obtain s' l' e' where h: "handlers_s6 ctx N a lx sig = (s', l', e')"
    by (cases "handlers_s6 ctx N a lx sig") auto
  show ?thesis
    using try_body_s6_facts [where ctx = ctx and N = N and a = a and rep = rep]
      handlers_s6_facts [where ctx = ctx and N = N and a = a and lx = lx and sig = sig]
    by (auto simp: iteration_s6_def tb h http_requests_append)
qed

lemma attempts_s1_exhausted:
  "N \<le> int a \<Longrightarrow> attempts_s1 ctx N up a lx = (after_loop lx, [])"
  by (simp add: attempts_s1.simps [of ctx N up a lx])

lemma attempts_s6_exhausted:
  "N \<le> int a \<Longrightarrow> attempts_s6 ctx N up a lx = (after_loop lx, [])"
  by (simp add: attempts_s6.simps [of ctx N up a lx])

lemma attempts_s1_bounded:
  "http_requests (snd (attempts_s1 ctx N up a lx)) \<le> nat (N - int a)
   \<and> (int a < N \<longrightarrow> fst (attempts_s1 ctx N up a lx) \<noteq> Raised (HTTPStatusError None))"
proof (induction ctx N up a lx rule: attempts_s1.induct)
  case (1 ctx N up a lx)
  show ?case
  proof (cases "int a < N")
    case False
    then show ?thesis
      by (simp add: attempts_s1_exhausted http_requests_plain)
  next
    case True
    obtain sig l1 evs where it: "iteration_s1 ctx N a lx (up a) = (sig, l1, evs)"
      by (cases "iteration_s1 ctx N a lx (up a)") auto
    have facts: "http_requests evs = 1" "sig \<noteq> Raise (HTTPStatusError None)"
         "sig = Continue \<longrightarrow> int a < N - 1"
      using iteration_s1_facts [where ctx = ctx and N = N and a = a and lx = lx and rep = "up a"] it
      by simp_all
    show ?thesis
    proof (cases sig)
      case Continue
      have IH: "http_requests (snd (attempts_s1 ctx N up (Suc a) l1)) \<le> nat (N - int (Suc a))
         \<and> (int (Suc a) < N \<longrightarrow> fst (attempts_s1 ctx N up (Suc a) l1) \<noteq> Raised (HTTPStatusError None))"
        using "1.IH" True it Continue by auto
      have next_ok: "int (Suc a) < N" using facts(3) Continue by simp
      have unfolded: "attempts_s1 ctx N up a lx = prepend evs (attempts_s1 ctx N up (Suc a) l1)"
        using True it Continue by (intro attempts_s1_continue) simp_all
      have "http_requests (snd (attempts_s1 ctx N up a lx))
              = 1 + http_requests (snd (attempts_s1 ctx N up (Suc a) l1))"
        using facts(1) by (simp add: unfolded prepend_def http_requests_append)
      moreover have "1 + nat (N - int (Suc a)) = nat (N - int a)"
        using next_ok by linarith
      moreover have "fst (attempts_s1 ctx N up a lx) = fst (attempts_s1 ctx N up (Suc a) l1)"
        by (simp add: unfolded prepend_def)
      ultimately show ?thesis
        using IH next_ok by simp
    next
      case (Return r)
      then show ?thesis
        using True it facts(1) by (simp add: attempts_s1.simps [of ctx N up a lx])
    next
      case (Raise e)
      then show ?thesis
        using True it facts(1,2) by (simp add: attempts_s1.simps [of ctx N up a lx])
    qed
  qed
qed

lemma attempts_s6_bounded:
  "http_requests (snd (attempts_s6 ctx N up a lx)) \<le> nat (N - int a)
   \<and> (int a < N \<longrightarrow> fst (attempts_s6 ctx N up a lx) \<noteq> Raised (HTTPStatusError None))"
proof (induction ctx N up a lx rule: attempts_s6.induct)
  case (1 ctx N up a lx)
  show ?case
  proof (cases "int a < N")
    case False
    then show ?thesis
      by (simp add: attempts_s6_exhausted http_requests_plain)
  next
    case True
    obtain sig l1 evs where it: "iteration_s6 ctx N a lx (up a) = (sig, l1, evs)"
      by (cases "iteration_s6 ctx N a lx (up a)") auto
    have facts: "http_requests evs = 1" "sig \<noteq> Raise (HTTPStatusError None)"
         "sig = Continue \<longrightarrow> int a < N - 1"
      using iteration_s6_facts [where ctx = ctx and N = N and a = a and lx = lx and rep = "up a"] it
      by simp_all
    show ?thesis
    proof (cases sig)
      case Continue
      have IH: "http_requests (snd (attempts_s6 ctx N up (Suc a) l1)) \<le> nat (N - int (Suc a))
         \<and> (int (Suc a) < N \<longrightarrow> fst (attempts_s6 ctx N up (Suc a) l1) \<noteq> Raised (HTTPStatusError None))"
        using "1.IH" True it Continue by auto
      have next_ok: "int (Suc a) < N" using facts(3) Continue by simp
      have unfolded: "attempts_s6 ctx N up a lx = prepend evs (attempts_s6 ctx N up (Suc a) l1)"
        using True it Continue by (intro attempts_s6_continue) simp_all
      have "http_requests (snd (attempts_s6 ctx N up a lx))
              = 1 + http_requests (snd (attempts_s6 ctx N up (Suc a) l1))"
        using facts(1) by (simp add: unfolded prepend_def http_requests_append)
      moreover have "1 + nat (N - int (Suc a)) = nat (N - int a)"
        using next_ok by linarith
      moreover have "fst (attempts_s6 ctx N up a lx) = fst (attempts_s6 ctx N up (Suc a) l1)"
        by (simp add: unfolded prepend_def)
      ultimately show ?thesis
        using IH next_ok by simp
    next
      case (Return r)
      then show ?thesis
        using True it facts(1) by (simp add: attempts_s6.simps [of ctx N up a lx])
    next
      case (Raise e)
      then show ?thesis
        using True it facts(1,2) by (simp add: attempts_s6.simps [of ctx N up a lx])
    qed
  qed
qed

text \<open>
  Claim C8. \<open>retry_github_request\<close> is a total function: for every budget and every
  upstream it ends, after at most \<open>max_retries\<close> requests, and its outcome is a returned
  response or a raised error. When the loop runs out (\<open>max_retries \<le> attempt\<close>), the code
  after it raises the last captured exception, and the generic
  \<open>HTTPStatusError("All retries exhausted", request=None, response=None)\<close> when none was
  captured. From the start of a call the generic failure is the outcome exactly when the
  budget is empty (\<open>max_retries \<le> 0\<close>): with a budget of at least one, the last iteration
  never reaches \<open>continue\<close>, so the call ends inside the loop.
\<close>

theorem retry_always_definite_outcome:
  "((\<exists>r. fst (retry_github_request_s1 ctx N up) = Returned r)
      \<or> (\<exists>e. fst (retry_github_request_s1 ctx N up) = Raised e))
   \<and> ((\<exists>r. fst (retry_github_request_s6 ctx N up) = Returned r)
      \<or> (\<exists>e. fst (retry_github_request_s6 ctx N up) = Raised e))
   \<and> http_requests (snd (retry_github_request_s1 ctx N up)) \<le> nat N
   \<and> http_requests (snd (retry_github_request_s6 ctx N up)) \<le> nat N
   \<and> (N \<le> int a \<longrightarrow>
        attempts_s1 ctx N up a None = (Raised (HTTPStatusError None), [])
      \<and> attempts_s6 ctx N up a None = (Raised (HTTPStatusError None), [])
      \<and> attempts_s1 ctx N up a (Some e) = (Raised e, [])
      \<and> attempts_s6 ctx N up a (Some e) = (Raised e, []))
   \<and> (fst (retry_github_request_s1 ctx N up) = Raised (HTTPStatusError None)) = (N \<le> 0)
   \<and> (fst (retry_github_request_s6 ctx N up) = Raised (HTTPStatusError None)) = (N \<le> 0)"
proof (intro conjI impI)
  show "(\<exists>r. fst (retry_github_request_s1 ctx N up) = Returned r)
      \<or> (\<exists>e. fst (retry_github_request_s1 ctx N up) = Raised e)"
    by (cases "fst (retry_github_request_s1 ctx N up)") simp_all
  show "(\<exists>r. fst (retry_github_request_s6 ctx N up) = Returned r)
      \<or> (\<exists>e. fst (retry_github_request_s6 ctx N up) = Raised e)"
    by (cases "fst (retry_github_request_s6 ctx N up)") simp_all
  show "http_requests (snd (retry_github_request_s1 ctx N up)) \<le> nat N"
    using attempts_s1_bounded [of ctx N up 0 None] by (simp add: retry_github_request_s1_def)
  show "http_requests (snd (retry_github_request_s6 ctx N up)) \<le> nat N"
    using attempts_s6_bounded [of ctx N up 0 None] by (simp add: retry_github_request_s6_def)
  show "(fst (retry_github_request_s1 ctx N up) = Raised (HTTPStatusError None)) = (N \<le> 0)"
    using attempts_s1_bounded [of ctx N up 0 None] attempts_s1_exhausted [of N 0 ctx up None]
    by (cases "N \<le> 0") (simp_all add: retry_github_request_s1_def after_loop_def)
  show "(fst (retry_github_request_s6 ctx N up) = Raised (HTTPStatusError None)) = (N \<le> 0)"
    using attempts_s6_bounded [of ctx N up 0 None] attempts_s6_exhausted [of N 0 ctx up None]
    by (cases "N \<le> 0") (simp_all add: retry_github_request_s6_def after_loop_def)
next
  assume "N \<le> int a"
  then show "attempts_s1 ctx N up a None = (Raised (HTTPStatusError None), [])"
    and "attempts_s6 ctx N up a None = (Raised (HTTPStatusError None), [])"
    and "attempts_s1 ctx N up a (Some e) = (Raised e, [])"
    and "attempts_s6 ctx N up a (Some e) = (Raised e, [])"
    by (simp_all add: attempts_s1_exhausted attempts_s6_exhausted after_loop_def)
qed

text \<open>
  An empty budget gives the generic failure without any request; a loop state past the
  budget that holds a captured timeout raises that timeout.
\<close>

theorem retry_always_definite_outcome_witness:
  "retry_github_request_s1 None 0 (\<lambda>i. TimesOut) = (Raised (HTTPStatusError None), [])
   \<and> retry_github_request_s6 None 0 (\<lambda>i. TimesOut) = (Raised (HTTPStatusError None), [])
   \<and> attempts_s1 None 3 (\<lambda>i. TimesOut) 3 (Some TimeoutException) = (Raised TimeoutException, [])
   \<and> attempts_s6 None 3 (\<lambda>i. TimesOut) 3 (Some TimeoutException) = (Raised TimeoutException, [])
   \<and> http_requests (snd (retry_github_request_s1 None 3 (\<lambda>i. TimesOut))) \<le> 3
   \<and> fst (retry_github_request_s1 None 3 (\<lambda>i. TimesOut)) \<noteq> Raised (HTTPStatusError None)"
  using retry_always_definite_outcome
          [where ctx = None and N = 0 and a = 0 and up = "\<lambda>i. TimesOut"]
        retry_always_definite_outcome
          [where ctx = None and N = 3 and a = 3 and up = "\<lambda>i. TimesOut"
             and e = TimeoutException]
  by (simp add: retry_github_request_s1_def retry_github_request_s6_def)


section \<open>Properties of \<open>compare_repositories\<close>\<close>

subsection \<open>Validation, tasks and slots\<close>

lemma targets_of_length: "targets_of rs = Inr ts \<Longrightarrow> length ts = length rs"
proof (induction rs arbitrary: ts)
  case Nil
  then show ?case by simp
next
  case (Cons r rs)
  then show ?case
    by (auto split: option.splits sum.splits)
qed

lemma targets_of_total:
  "(\<forall>r \<in> set rs. r ''owner'' \<noteq> None \<and> r ''repo'' \<noteq> None) \<Longrightarrow> \<exists>ts. targets_of rs = Inr ts"
  by (induction rs) auto

lemma validate_Inr:
  assumes "validate env rs = Inr ts"
  shows "env ''GITHUB_TOKEN'' \<noteq> None" and "2 \<le> length rs" and "length rs \<le> 5"
    and "targets_of rs = Inr ts" and "length ts = length rs"
proof -
  show a: "env ''GITHUB_TOKEN'' \<noteq> None"
    using assms by (auto simp: validate_def require_env_vars_def split: if_splits)
  show b: "2 \<le> length rs" and c: "length rs \<le> 5" and d: "targets_of rs = Inr ts"
    using assms
    by (auto simp: validate_def require_env_vars_def check_count_def split: if_splits sum.splits list.splits)
  show "length ts = length rs" using d by (rule targets_of_length)
qed

lemma validate_bad_count:
  assumes "length rs < 2 \<or> 5 < length rs"
  shows "\<exists>m. validate env rs = Inl (ValueError m)"
  using assms
  by (auto simp: validate_def require_env_vars_def check_count_def split: list.splits)

lemma validate_bad_count_with_token:
  assumes "env ''GITHUB_TOKEN'' \<noteq> None"
  shows "length rs < 2 \<Longrightarrow> validate env rs = Inl (ValueError TooFewRepositories)"
    and "5 < length rs \<Longrightarrow> validate env rs = Inl (ValueError TooManyRepositories)"
  using assms
  by (auto simp: validate_def require_env_vars_def check_count_def)

lemma validate_good:
  assumes "env ''GITHUB_TOKEN'' \<noteq> None" and "2 \<le> length rs" and "length rs \<le> 5"
    and "\<forall>r \<in> set rs. r ''owner'' \<noteq> None \<and> r ''repo'' \<noteq> None"
  shows "\<exists>ts. validate env rs = Inr ts"
  using assms targets_of_total [of rs]
  by (auto simp: validate_def require_env_vars_def check_count_def)

lemma gather_length: "length (gather world ts) = length ts"
  by (simp add: gather_def)

lemma gather_nth:
  "i < length ts \<Longrightarrow>
     gather world ts ! i = fetch_repository_data (world i) (fst (ts ! i)) (snd (ts ! i))"
  by (simp add: gather_def nth_enumerate_eq)

lemma repo_data_list_length: "length (repo_data_list ts (gather world ts)) = length ts"
  by (simp add: repo_data_list_def gather_length)

lemma repo_data_list_nth:
  "i < length ts \<Longrightarrow>
     repo_data_list ts (gather world ts) ! i
       = slot_of (ts ! i) (fetch_repository_data (world i) (fst (ts ! i)) (snd (ts ! i)))"
  by (simp add: repo_data_list_def gather_length gather_nth)

lemma fetch_metadata_throws:
  "metadata_call w = Throws e \<Longrightarrow> fetch_repository_data w a b = Inl e"
  by (simp add: fetch_repository_data_def)

lemma fetch_metadata_ok:
  assumes "metadata_call w = Json p" and "gh_pushed_at p \<noteq> BadDate"
  shows "\<exists>d. fetch_repository_data w a b = Inr d \<and> owner d = a \<and> repo d = b
           \<and> open_prs_count d = open_prs_of (pr_search_call w)
           \<and> last_commit_date d = last_commit_of (commits_call w)
           \<and> last_commit_age_days d = calculate_days_ago (clock w) (last_commit_of (commits_call w))"
  using assms
  by (cases "gh_pushed_at p") (simp_all add: fetch_repository_data_def pushed_at_of_def Let_def)

lemma fetch_names: "fetch_repository_data w a b = Inr d \<Longrightarrow> owner d = a \<and> repo d = b"
  by (auto simp: fetch_repository_data_def Let_def split: call_result.splits sum.splits)

lemma fetch_fails_iff:
  assumes "\<And>p. metadata_call w = Json p \<Longrightarrow> gh_pushed_at p \<noteq> BadDate"
  shows "(\<exists>e. fetch_repository_data w a b = Inl e) = (\<exists>e. metadata_call w = Throws e)"
proof (cases "metadata_call w")
  case (Json p)
  then show ?thesis using fetch_metadata_ok [of w p a b] assms by auto
next
  case (Throws e)
  then show ?thesis using fetch_metadata_throws [of w e a b] by auto
qed

text \<open>
  Claim C6. A call of \<open>compare_repositories\<close> with fewer than 2 or more than 5 targets is
  rejected with the invalid-params error (code -32602) built from a \<open>ValueError\<close>, no
  task of \<open>fetch_repository_data\<close> is started, so no network call is made, and the run
  does not depend on the upstream at all. With the token present the error is the one of
  the count check. A list of 2 to 5 targets passes the count check, and when the token
  is present and every entry has its \<open>owner\<close> and \<open>repo\<close>, one task is started per
  target.
\<close>

theorem compare_rejects_bad_target_count:
  "(length rs < 2 \<or> 5 < length rs \<longrightarrow>
      (\<exists>m. outcome (compare_repositories env rs ms world) = Inl (McpError (- 32602) (ValueError m)))
      \<and> fetched (compare_repositories env rs ms world) = []
      \<and> compare_repositories env rs ms world = compare_repositories env rs ms world')
   \<and> (env ''GITHUB_TOKEN'' \<noteq> None \<and> length rs < 2 \<longrightarrow>
        outcome (compare_repositories env rs ms world)
          = Inl (McpError (- 32602) (ValueError TooFewRepositories)))
   \<and> (env ''GITHUB_TOKEN'' \<noteq> None \<and> 5 < length rs \<longrightarrow>
        outcome (compare_repositories env rs ms world)
          = Inl (McpError (- 32602) (ValueError TooManyRepositories)))
   \<and> (2 \<le> length rs \<and> length rs \<le> 5 \<longrightarrow>
        check_count rs = Inr ()
        \<and> (env ''GITHUB_TOKEN'' \<noteq> None
             \<and> (\<forall>r \<in> set rs. r ''owner'' \<noteq> None \<and> r ''repo'' \<noteq> None)
            \<longrightarrow> length (fetched (compare_repositories env rs ms world)) = length rs))"
proof (intro conjI impI)
  assume bad: "length rs < 2 \<or> 5 < length rs"
  then obtain m where v: "validate env rs = Inl (ValueError m)"
    using validate_bad_count by blast
  show "\<exists>m. outcome (compare_repositories env rs ms world) = Inl (McpError (- 32602) (ValueError m))"
    using v by (simp add: compare_repositories_def to_mcp_error_def)
  show "fetched (compare_repositories env rs ms world) = []"
    using v by (simp add: compare_repositories_def)
  show "compare_repositories env rs ms world = compare_repositories env rs ms world'"
    using v by (simp add: compare_repositories_def)
next
  assume "env ''GITHUB_TOKEN'' \<noteq> None \<and> length rs < 2"
  then have "validate env rs = Inl (ValueError TooFewRepositories)"
    using validate_bad_count_with_token(1) by blast
  then show "outcome (compare_repositories env rs ms world)
          = Inl (McpError (- 32602) (ValueError TooFewRepositories))"
    by (simp add: compare_repositories_def to_mcp_error_def)
next
  assume "env ''GITHUB_TOKEN'' \<noteq> None \<and> 5 < length rs"
  then have "validate env rs = Inl (ValueError TooManyRepositories)"
    using validate_bad_count_with_token(2) by blast
  then show "outcome (compare_repositories env rs ms world)
          = Inl (McpError (- 32602) (ValueError TooManyRepositories))"
    by (simp add: compare_repositories_def to_mcp_error_def)
next
  assume "2 \<le> length rs \<and> length rs \<le> 5"
  then show "check_count rs = Inr ()"
    by (simp add: check_count_def)
next
  assume count: "2 \<le> length rs \<and> length rs \<le> 5"
    and rest: "env ''GITHUB_TOKEN'' \<noteq> None
             \<and> (\<forall>r \<in> set rs. r ''owner'' \<noteq> None \<and> r ''repo'' \<noteq> None)"
  then obtain ts where v: "validate env rs = Inr ts"
    using validate_good [of env rs] by blast
  have "fetched (compare_repositories env rs ms world) = ts"
    using v by (simp add: compare_repositories_def Let_def split: sum.splits)
  then show "length (fetched (compare_repositories env rs ms world)) = length rs"
    using validate_Inr(5) [OF v] by simp
qed

text \<open>One target and six targets are rejected without a fetch; two targets are fetched.\<close>

theorem compare_rejects_bad_target_count_witness:
  "outcome (compare_repositories example_env [example_ref ''a'' ''x''] None
              (\<lambda>i. example_success 1 1 1))
     = Inl (McpError (- 32602) (ValueError TooFewRepositories))
   \<and> fetched (compare_repositories example_env [example_ref ''a'' ''x''] None
              (\<lambda>i. example_success 1 1 1)) = []
   \<and> outcome (compare_repositories example_env
        [example_ref ''a'' ''x'', example_ref ''b'' ''x'', example_ref ''c'' ''x'',
         example_ref ''d'' ''x'', example_ref ''e'' ''x'', example_ref ''f'' ''x''] None
              (\<lambda>i. example_success 1 1 1))
     = Inl (McpError (- 32602) (ValueError TooManyRepositories))
   \<and> fetched (compare_repositories example_env
        [example_ref ''a'' ''x'', example_ref ''b'' ''x'', example_ref ''c'' ''x'',
         example_ref ''d'' ''x'', example_ref ''e'' ''x'', example_ref ''f'' ''x''] None
              (\<lambda>i. example_success 1 1 1)) = []
   \<and> check_count [example_ref ''a'' ''x'', example_ref ''b'' ''y''] = Inr ()
   \<and> length (fetched (compare_repositories example_env
        [example_ref ''a'' ''x'', example_ref ''b'' ''y''] None
              (\<lambda>i. example_success 1 1 1))) = 2"
  using compare_rejects_bad_target_count
          [where env = example_env and rs = "[example_ref ''a'' ''x'']" and ms = None
             and world = "\<lambda>i. example_success 1 1 1"]
        compare_rejects_bad_target_count
          [where env = example_env
             and rs = "[example_ref ''a'' ''x'', example_ref ''b'' ''x'', example_ref ''c'' ''x'',
                        example_ref ''d'' ''x'', example_ref ''e'' ''x'', example_ref ''f'' ''x'']"
             and ms = None and world = "\<lambda>i. example_success 1 1 1"]
        compare_rejects_bad_target_count
          [where env = example_env
             and rs = "[example_ref ''a'' ''x'', example_ref ''b'' ''y'']"
             and ms = None and world = "\<lambda>i. example_success 1 1 1"]
  by (simp add: example_env_def example_ref_def)

text \<open>
  Claim C10. In \<open>fetch_repository_data\<close> an exception of the metadata call leaves the
  function, so the target is failed. When the metadata call returns (with a
  \<open>pushed_at\<close> that is missing or a date, as the API sends it), the function returns a
  dictionary whatever the two other calls do: an exception of the pull-request search
  gives \<open>open_prs_count = 0\<close>, an exception of the commits call gives
  \<open>last_commit_date = None\<close> and \<open>last_commit_age_days = None\<close>. In the aggregator the
  slot of a target carries the error marker exactly when its metadata call raised.
\<close>

theorem fetch_fails_only_with_metadata:
  "(metadata_call w = Throws e \<longrightarrow> fetch_repository_data w a b = Inl e)
   \<and> (metadata_call w = Json p \<and> gh_pushed_at p \<noteq> BadDate \<longrightarrow>
        (\<exists>d. fetch_repository_data w a b = Inr d \<and> owner d = a \<and> repo d = b
           \<and> (pr_search_call w = Throws ea \<longrightarrow> open_prs_count d = 0)
           \<and> (commits_call w = Throws eb \<longrightarrow>
                 last_commit_date d = None \<and> last_commit_age_days d = None)))
   \<and> (validate env rs = Inr ts \<and> i < length ts
        \<and> (\<forall>q. metadata_call (world i) = Json q \<longrightarrow> gh_pushed_at q \<noteq> BadDate) \<longrightarrow>
        (\<not> is_bag (repo_data_list ts (gather world ts) ! i))
          = (\<exists>x. metadata_call (world i) = Throws x))"
proof (intro conjI impI)
  assume "metadata_call w = Throws e"
  then show "fetch_repository_data w a b = Inl e" by (rule fetch_metadata_throws)
next
  assume "metadata_call w = Json p \<and> gh_pushed_at p \<noteq> BadDate"
  then obtain d where d: "fetch_repository_data w a b = Inr d" "owner d = a" "repo d = b"
      "open_prs_count d = open_prs_of (pr_search_call w)"
      "last_commit_date d = last_commit_of (commits_call w)"
      "last_commit_age_days d = calculate_days_ago (clock w) (last_commit_of (commits_call w))"
    using fetch_metadata_ok [of w p a b] by blast
  have "pr_search_call w = Throws ea \<longrightarrow> open_prs_count d = 0"
    using d(4) by (simp add: open_prs_of_def)
  moreover have "commits_call w = Throws eb \<longrightarrow>
                 last_commit_date d = None \<and> last_commit_age_days d = None"
    using d(5,6) by (simp add: last_commit_of_def calculate_days_ago_def)
  ultimately show "\<exists>d. fetch_repository_data w a b = Inr d \<and> owner d = a \<and> repo d = b
           \<and> (pr_search_call w = Throws ea \<longrightarrow> open_prs_count d = 0)
           \<and> (commits_call w = Throws eb \<longrightarrow>
                 last_commit_date d = None \<and> last_commit_age_days d = None)"
    using d(1,2,3) by blast
next
  assume h: "validate env rs = Inr ts \<and> i < length ts
        \<and> (\<forall>q. metadata_call (world i) = Json q \<longrightarrow> gh_pushed_at q \<noteq> BadDate)"
  have slot: "repo_data_list ts (gather world ts) ! i
       = slot_of (ts ! i) (fetch_repository_data (world i) (fst (ts ! i)) (snd (ts ! i)))"
    using h by (intro repo_data_list_nth) simp
  have "(\<not> is_bag (repo_data_list ts (gather world ts) ! i))
          = (\<exists>x. fetch_repository_data (world i) (fst (ts ! i)) (snd (ts ! i)) = Inl x)"
    unfolding slot
    by (cases "fetch_repository_data (world i) (fst (ts ! i)) (snd (ts ! i))")
       (simp_all add: slot_of_def)
  also have "\<dots> = (\<exists>x. metadata_call (world i) = Throws x)"
    using h by (intro fetch_fails_iff) simp
  finally show "(\<not> is_bag (repo_data_list ts (gather world ts) ! i))
          = (\<exists>x. metadata_call (world i) = Throws x)" .
qed

text \<open>
  A 404 on the metadata call fails the target; a timeout of the search and a network
  failure of the commits call do not.
\<close>

theorem fetch_fails_only_with_metadata_witness:
  "fetch_repository_data (example_failure not_found) ''a'' ''x'' = Inl not_found
   \<and> (\<exists>d. fetch_repository_data
             ((example_success 100 1 2)\<lparr>pr_search_call := Throws TimeoutException,
                                        commits_call := Throws NetworkError\<rparr>) ''a'' ''x'' = Inr d
          \<and> owner d = ''a'' \<and> repo d = ''x'' \<and> open_prs_count d = 0
          \<and> last_commit_date d = None \<and> last_commit_age_days d = None)
   \<and> (\<not> is_bag (repo_data_list [(''a'', ''x''), (''b'', ''y'')]
          (gather (\<lambda>i. if i = 0 then example_failure not_found
                        else (example_success 100 1 2)\<lparr>pr_search_call := Throws TimeoutException\<rparr>)
             [(''a'', ''x''), (''b'', ''y'')]) ! 0))
   \<and> is_bag (repo_data_list [(''a'', ''x''), (''b'', ''y'')]
          (gather (\<lambda>i. if i = 0 then example_failure not_found
                        else (example_success 100 1 2)\<lparr>pr_search_call := Throws TimeoutException\<rparr>)
             [(''a'', ''x''), (''b'', ''y'')]) ! 1)"
  using fetch_fails_only_with_metadata
          [where w = "example_failure not_found" and e = not_found and a = "''a''" and b = "''x''"]
        fetch_fails_only_with_metadata
          [where w = "(example_success 100 1 2)\<lparr>pr_search_call := Throws TimeoutException,
                                                 commits_call := Throws NetworkError\<rparr>"
             and a = "''a''" and b = "''x''" and ea = TimeoutException and eb = NetworkError
             and p = "\<lparr>gh_open_issues_count = Some 10, gh_stargazers_count = Some 100,
                       gh_forks_count = Some 1, gh_watchers_count = Some 1, gh_language = None,
                       gh_archived = None, gh_disabled = None, gh_pushed_at = NoDate\<rparr>"]
        fetch_fails_only_with_metadata
          [where env = example_env
             and rs = "[example_ref ''a'' ''x'', example_ref ''b'' ''y'']"
             and ts = "[(''a'', ''x''), (''b'', ''y'')]" and i = 0
             and world = "\<lambda>i. if i = 0 then example_failure not_found
                        else (example_success 100 1 2)\<lparr>pr_search_call := Throws TimeoutException\<rparr>"]
        fetch_fails_only_with_metadata
          [where env = example_env
             and rs = "[example_ref ''a'' ''x'', example_ref ''b'' ''y'']"
             and ts = "[(''a'', ''x''), (''b'', ''y'')]" and i = 1
             and world = "\<lambda>i. if i = 0 then example_failure not_found
                        else (example_success 100 1 2)\<lparr>pr_search_call := Throws TimeoutException\<rparr>"]
  by (simp add: example_env_def example_ref_def example_success_def example_failure_def
      validate_def require_env_vars_def check_count_def)

subsection \<open>Runs on the example inputs\<close>

lemmas compare_eval =
  compare_repositories_def validate_def require_env_vars_def check_count_def
  gather_def repo_data_list_def slot_of_def error_reports_def repo_name_def
  metrics_to_compare_def metric_row_def add_metric_def metric_value_def or_9999_def comparison_metrics_def
  dict_set_def summarize_def ranking_def leader_def first_with_def py_min_def py_max_def
  to_mcp_error_def fetch_repository_data_def open_prs_of_def last_commit_of_def
  parse_github_datetime_def calculate_days_ago_def get_or_def pushed_at_of_def
  example_env_def example_ref_def example_success_def example_failure_def not_found_def
  enumerate_eq_zip

text \<open>
  Claim C5, at the input where the code departs from it. Two targets, both failed at the
  metadata call, the default metrics: \<open>min\<close> is applied to the empty row of
  \<open>last_commit_age\<close> before the test \<open>if comparison_metrics["last_commit_age"]\<close> is
  reached, its \<open>ValueError\<close> is caught by \<open>except ValueError\<close>, and the call ends with the
  invalid-params error instead of a response with empty rankings.
\<close>

theorem compare_all_failed_raises:
  "compare_repositories example_env [example_ref ''a'' ''x'', example_ref ''b'' ''y''] None
     (\<lambda>i. example_failure not_found)
   = \<lparr>outcome = Inl (McpError (- 32602) (ValueError EmptySequence)),
      fetched = [(''a'', ''x''), (''b'', ''y'')],
      ctx_errors = [FetchFailed ''a/x'' not_found, FetchFailed ''b/y'' not_found,
                    ValidationFailed (ValueError EmptySequence)]\<rparr>"
  by (simp add: compare_eval)

text \<open>
  Claim C4, at the input where the code departs from it. A last commit less than a day
  old has \<open>last_commit_age_days = 0\<close>, and \<open>0 or 9999\<close> is 9999: the target with the
  smallest age is entered with 9999 and \<open>most_active\<close> is the other one, whose age is 5.
  The last conjunct is the scenario of the claim (100 stars and 2 days, 500 stars and 30
  days), where the code does what the claim says.
\<close>

theorem compare_zero_age_is_least_active:
  "map_sum id last_commit_age_days
      (fetch_repository_data (example_success 100 1 0) ''a'' ''x'') = Inr (Some 0)
   \<and> map_sum id last_commit_age_days
      (fetch_repository_data (example_success 100 1 5) ''b'' ''y'') = Inr (Some 5)
   \<and> map_sum id (\<lambda>c. map_of (metrics c) ''last_commit_age'')
        (outcome (compare_repositories example_env
           [example_ref ''a'' ''x'', example_ref ''b'' ''y''] None
           (\<lambda>i. if i = 0 then example_success 100 1 0 else example_success 100 1 5)))
     = Inr (Some [(''a/x'', 9999), (''b/y'', 5)])
   \<and> map_sum id summary
        (outcome (compare_repositories example_env
           [example_ref ''a'' ''x'', example_ref ''b'' ''y''] None
           (\<lambda>i. if i = 0 then example_success 100 1 0 else example_success 100 1 5)))
     = Inr [(''most_active'', Some ''b/y''), (''most_popular'', Some ''a/x''),
            (''most_forked'', Some ''a/x'')]
   \<and> map_sum id summary
        (outcome (compare_repositories example_env
           [example_ref ''a'' ''x'', example_ref ''b'' ''y''] None
           (\<lambda>i. if i = 0 then example_success 100 1 2 else example_success 500 1 30)))
     = Inr [(''most_active'', Some ''a/x''), (''most_popular'', Some ''b/y''),
            (''most_forked'', Some ''a/x'')]"
  by (simp add: compare_eval Let_def)

subsection \<open>Rows and rankings\<close>

lemma dict_set_keys: "fst ` set (dict_set d k v) = insert k (fst ` set d)"
proof (cases "k \<in> set (map fst d)")
  case True
  have "map fst (map (\<lambda>kv. if fst kv = k then (k, v) else kv) d) = map fst d"
    by (induction d) auto
  then have "fst ` set (dict_set d k v) = fst ` set d"
    using True by (simp add: dict_set_def del: map_map flip: set_map)
  then show ?thesis using True by auto
next
  case False
  then show ?thesis by (simp add: dict_set_def)
qed

lemma dict_set_entries: "set (dict_set d k v) \<subseteq> insert (k, v) (set d)"
  by (auto simp: dict_set_def split: if_splits)

lemma dict_set_nonempty: "dict_set d k v \<noteq> []"
  by (cases d) (auto simp: dict_set_def)

lemma add_metric_failed: "\<not> is_bag s \<Longrightarrow> add_metric m s row = row"
  by (cases s) (simp_all add: add_metric_def)

lemma fold_add_metric_bags:
  "fold (add_metric m) slots acc = fold (add_metric m) (filter is_bag slots) acc"
  by (induction slots arbitrary: acc) (simp_all add: add_metric_failed)

lemma metric_row_bags: "metric_row m slots = metric_row m (filter is_bag slots)"
  unfolding metric_row_def by (rule fold_add_metric_bags)

lemma add_metric_keys:
  "fst ` set (add_metric m s row) \<subseteq> fst ` set row \<union> {bag_name d |d. s = Bag d}"
  by (cases s) (auto simp: add_metric_def dict_set_keys bag_name_def split: option.splits)

lemma fold_add_metric_keys:
  "fst ` set (fold (add_metric m) slots acc)
     \<subseteq> fst ` set acc \<union> {bag_name d |d. Bag d \<in> set slots}"
proof (induction slots arbitrary: acc)
  case Nil
  show ?case by simp
next
  case (Cons s slots)
  have "fst ` set (fold (add_metric m) slots (add_metric m s acc))
          \<subseteq> fst ` set (add_metric m s acc) \<union> {bag_name d |d. Bag d \<in> set slots}"
    by (rule Cons.IH)
  then have "fst ` set (fold (add_metric m) (s # slots) acc)
          \<subseteq> fst ` set acc \<union> ({bag_name d |d. s = Bag d} \<union> {bag_name d |d. Bag d \<in> set slots})"
    using add_metric_keys [of m s acc] by (simp only: fold_simps) blast
  moreover have "{bag_name d |d. s = Bag d} \<union> {bag_name d |d. Bag d \<in> set slots}
          \<subseteq> {bag_name d |d. Bag d \<in> set (s # slots)}"
    by auto
  ultimately show ?case by blast
qed

lemma metric_row_keys:
  "k \<in> fst ` set (metric_row m slots) \<Longrightarrow> \<exists>d. Bag d \<in> set slots \<and> k = bag_name d"
  using fold_add_metric_keys [of m slots "[]"] by (auto simp: metric_row_def)

lemma add_metric_keeps: "row \<noteq> [] \<Longrightarrow> add_metric m s row \<noteq> []"
  by (cases s) (simp_all add: add_metric_def dict_set_nonempty split: option.splits)

lemma fold_add_metric_keeps: "acc \<noteq> [] \<Longrightarrow> fold (add_metric m) slots acc \<noteq> []"
  by (induction slots arbitrary: acc) (simp_all add: add_metric_keeps)

lemma fold_add_metric_nonempty:
  "Bag d \<in> set slots \<Longrightarrow> metric_value m d \<noteq> None \<Longrightarrow> fold (add_metric m) slots acc \<noteq> []"
proof (induction slots arbitrary: acc)
  case Nil
  then show ?case by simp
next
  case (Cons s slots)
  show ?case
  proof (cases "s = Bag d")
    case True
    then have "add_metric m s acc \<noteq> []"
      using Cons.prems(2) by (auto simp: add_metric_def dict_set_nonempty)
    then show ?thesis by (simp add: fold_add_metric_keeps)
  next
    case False
    then have "Bag d \<in> set slots" using Cons.prems(1) by simp
    then show ?thesis using Cons.IH Cons.prems(2) by simp
  qed
qed

lemma metric_row_nonempty:
  "Bag d \<in> set slots \<Longrightarrow> metric_value m d \<noteq> None \<Longrightarrow> metric_row m slots \<noteq> []"
  unfolding metric_row_def by (rule fold_add_metric_nonempty)

lemma fold_rows_entries:
  "(m, row) \<in> set (fold (\<lambda>metric cm. dict_set cm metric (metric_row metric slots)) names acc)
     \<Longrightarrow> (m, row) \<in> set acc \<or> row = metric_row m slots"
proof (induction names arbitrary: acc)
  case Nil
  then show ?case by simp
next
  case (Cons n names)
  then have "(m, row) \<in> set (dict_set acc n (metric_row n slots)) \<or> row = metric_row m slots"
    by simp
  then show ?case using dict_set_entries [of acc n "metric_row n slots"] by auto
qed

lemma comparison_metrics_entries:
  "(m, row) \<in> set (comparison_metrics names slots) \<Longrightarrow> row = metric_row m slots"
  using fold_rows_entries [of m row slots names "[]"] by (simp add: comparison_metrics_def)

lemma comparison_metrics_bags:
  "comparison_metrics names slots = comparison_metrics names (filter is_bag slots)"
  unfolding comparison_metrics_def using metric_row_bags [of _ slots] by simp

lemma first_with_key: "first_with best row = Inr k \<Longrightarrow> k \<in> fst ` set row"
proof -
  assume a: "first_with best row = Inr k"
  then obtain kv rest where f: "filter (\<lambda>kv. snd kv = best) row = kv # rest" and k: "k = fst kv"
    by (auto simp: first_with_def split: list.splits)
  have "kv \<in> set (filter (\<lambda>kv. snd kv = best) row)" using f by simp
  then show ?thesis using k by auto
qed

lemma leader_key: "leader pick row = Inr (Some k) \<Longrightarrow> k \<in> fst ` set row"
  by (auto simp: leader_def split: sum.splits if_splits dest: first_with_key)

lemma ranking_entries:
  assumes "ranking m t pick cm s0 = Inr s1" and "(title, Some k) \<in> set s1"
  shows "(title, Some k) \<in> set s0 \<or> (\<exists>row. (m, row) \<in> set cm \<and> k \<in> fst ` set row)"
proof (cases "map_of cm m")
  case None
  then show ?thesis using assms by (simp add: ranking_def)
next
  case (Some row)
  then obtain best where l: "leader pick row = Inr best" and s1: "s1 = dict_set s0 t best"
    using assms(1) by (auto simp: ranking_def split: sum.splits)
  have "(title, Some k) \<in> set s0 \<or> best = Some k"
    using assms(2) s1 dict_set_entries [of s0 t best] by auto
  moreover have "(m, row) \<in> set cm" using Some by (rule map_of_SomeD)
  ultimately show ?thesis using l leader_key by blast
qed

lemma summarize_entries:
  assumes "summarize cm = Inr sm" and "(title, Some k) \<in> set sm"
  shows "\<exists>m row. (m, row) \<in> set cm \<and> k \<in> fst ` set row"
proof -
  obtain s1 s2 where
    r1: "ranking ''last_commit_age'' ''most_active'' py_min cm [] = Inr s1"
    and r2: "ranking ''stars'' ''most_popular'' py_max cm s1 = Inr s2"
    and r3: "ranking ''forks'' ''most_forked'' py_max cm s2 = Inr sm"
    using assms(1) by (auto simp: summarize_def split: sum.splits)
  show ?thesis
    using ranking_entries [OF r3 assms(2)] ranking_entries [OF r2, of title k]
      ranking_entries [OF r1, of title k]
    by auto
qed

lemma fold_min_mem: "fold min ys (x::int) \<in> set (x # ys)"
proof (induction ys arbitrary: x)
  case Nil
  show ?case by simp
next
  case (Cons y ys)
  have "fold min ys (min y x) \<in> set (min y x # ys)" by (rule Cons.IH)
  moreover have "min y x = y \<or> min y x = x" by (simp add: min_def)
  ultimately show ?case by auto
qed

lemma fold_max_mem: "fold max ys (x::int) \<in> set (x # ys)"
proof (induction ys arbitrary: x)
  case Nil
  show ?case by simp
next
  case (Cons y ys)
  have "fold max ys (max y x) \<in> set (max y x # ys)" by (rule Cons.IH)
  moreover have "max y x = y \<or> max y x = x" by (simp add: max_def)
  ultimately show ?case by auto
qed

lemma py_min_nonempty: "xs \<noteq> [] \<Longrightarrow> \<exists>b. py_min xs = Inr b \<and> b \<in> set xs"
  using fold_min_mem by (cases xs) (auto simp: py_min_def)

lemma py_max_nonempty: "xs \<noteq> [] \<Longrightarrow> \<exists>b. py_max xs = Inr b \<and> b \<in> set xs"
  using fold_max_mem by (cases xs) (auto simp: py_max_def)

lemma first_with_found: "best \<in> set (map snd row) \<Longrightarrow> \<exists>k. first_with best row = Inr k"
proof -
  assume "best \<in> set (map snd row)"
  then obtain kv where "kv \<in> set row" "snd kv = best" by auto
  then have "filter (\<lambda>kv. snd kv = best) row \<noteq> []"
    by (auto simp: filter_empty_conv)
  then show ?thesis by (auto simp: first_with_def split: list.splits)
qed

lemma leader_nonempty:
  assumes "row \<noteq> []" and "\<And>xs. xs \<noteq> [] \<Longrightarrow> \<exists>b. pick xs = Inr b \<and> b \<in> set xs"
  shows "\<exists>k. leader pick row = Inr (Some k)"
proof -
  have "map snd row \<noteq> []" using assms(1) by simp
  then obtain b where b: "pick (map snd row) = Inr b" "b \<in> set (map snd row)"
    using assms(2) by blast
  obtain k where "first_with b row = Inr k" using first_with_found [OF b(2)] by blast
  then show ?thesis using b(1) assms(1) by (simp add: leader_def)
qed

lemma ranking_succeeds:
  assumes "\<And>row. map_of cm m = Some row \<Longrightarrow> row \<noteq> []"
    and "\<And>xs. xs \<noteq> [] \<Longrightarrow> \<exists>b. pick xs = Inr b \<and> b \<in> set xs"
  shows "\<exists>s1. ranking m t pick cm s0 = Inr s1"
proof (cases "map_of cm m")
  case None
  then show ?thesis by (simp add: ranking_def)
next
  case (Some row)
  then have "row \<noteq> []" by (rule assms(1))
  then obtain k where "leader pick row = Inr (Some k)"
    using leader_nonempty [of row pick] assms(2) by blast
  then show ?thesis using Some by (simp add: ranking_def)
qed

lemma ranked_rows_nonempty:
  assumes "Bag d \<in> set slots" and "m \<in> {''last_commit_age'', ''stars'', ''forks''}"
    and "map_of (comparison_metrics names slots) m = Some row"
  shows "row \<noteq> []"
proof -
  have "(m, row) \<in> set (comparison_metrics names slots)" using assms(3) by (rule map_of_SomeD)
  then have "row = metric_row m slots" by (rule comparison_metrics_entries)
  moreover have "metric_value m d \<noteq> None" using assms(2) by (auto simp: metric_value_def)
  ultimately show ?thesis using metric_row_nonempty [OF assms(1)] by simp
qed

lemma summarize_succeeds:
  assumes "Bag d \<in> set slots"
  shows "\<exists>sm. summarize (comparison_metrics names slots) = Inr sm"
proof -
  let ?cm = "comparison_metrics names slots"
  obtain s1 where r1: "ranking ''last_commit_age'' ''most_active'' py_min ?cm [] = Inr s1"
    using ranking_succeeds [of ?cm "''last_commit_age''" py_min]
      ranked_rows_nonempty [OF assms, of "''last_commit_age''"] py_min_nonempty
    by blast
  obtain s2 where r2: "ranking ''stars'' ''most_popular'' py_max ?cm s1 = Inr s2"
    using ranking_succeeds [of ?cm "''stars''" py_max]
      ranked_rows_nonempty [OF assms, of "''stars''"] py_max_nonempty
    by blast
  obtain s3 where r3: "ranking ''forks'' ''most_forked'' py_max ?cm s2 = Inr s3"
    using ranking_succeeds [of ?cm "''forks''" py_max]
      ranked_rows_nonempty [OF assms, of "''forks''"] py_max_nonempty
    by blast
  show ?thesis using r1 r2 r3 by (simp add: summarize_def)
qed

lemma error_reports_member:
  "Failed a b e \<in> set slots \<Longrightarrow> FetchFailed (repo_name a b) e \<in> set (error_reports slots)"
  by (force simp: error_reports_def)

lemma compare_valid_fields:
  assumes "validate env rs = Inr ts"
    and "summarize (comparison_metrics (metrics_to_compare ms) (repo_data_list ts (gather world ts)))
           = Inr sm"
  shows "compare_repositories env rs ms world
           = \<lparr>outcome = Inr \<lparr>repositories = rs,
                metrics = comparison_metrics (metrics_to_compare ms)
                            (repo_data_list ts (gather world ts)),
                summary = sm\<rparr>,
              fetched = ts,
              ctx_errors = error_reports (repo_data_list ts (gather world ts))\<rparr>"
  using assms by (simp add: compare_repositories_def Let_def)

text \<open>
  Claim C3, as stated, fails. Three targets, the first failed with a 404, the other two
  fetched: the returned result has no entry for \<open>a/x\<close> in any row and holds no error; it
  is the same result when the first target fails with a timeout instead. The error is
  only sent to \<open>ctx.error\<close>.
\<close>

theorem compare_result_omits_failed_target:
  "outcome (compare_repositories example_env
      [example_ref ''a'' ''x'', example_ref ''b'' ''y'', example_ref ''c'' ''z''] None
      (example_partial not_found))
     = Inr \<lparr>repositories =
              [example_ref ''a'' ''x'', example_ref ''b'' ''y'', example_ref ''c'' ''z''],
            metrics =
              [(''open_issues'', [(''b/y'', 7), (''c/z'', 7)]),
               (''open_prs'', [(''b/y'', 3), (''c/z'', 3)]),
               (''stars'', [(''b/y'', 100), (''c/z'', 500)]),
               (''forks'', [(''b/y'', 7), (''c/z'', 3)]),
               (''watchers'', [(''b/y'', 1), (''c/z'', 1)]),
               (''last_commit_age'', [(''b/y'', 5), (''c/z'', 9)])],
            summary =
              [(''most_active'', Some ''b/y''), (''most_popular'', Some ''c/z''),
               (''most_forked'', Some ''b/y'')]\<rparr>
   \<and> outcome (compare_repositories example_env
      [example_ref ''a'' ''x'', example_ref ''b'' ''y'', example_ref ''c'' ''z''] None
      (example_partial TimeoutException))
     = outcome (compare_repositories example_env
      [example_ref ''a'' ''x'', example_ref ''b'' ''y'', example_ref ''c'' ''z''] None
      (example_partial not_found))
   \<and> ctx_errors (compare_repositories example_env
      [example_ref ''a'' ''x'', example_ref ''b'' ''y'', example_ref ''c'' ''z''] None
      (example_partial not_found))
     = [FetchFailed ''a/x'' not_found]"
  by (simp add: compare_eval example_partial_def Let_def)

text \<open>
  Claim C3, amended. For a comparison that passes validation (2 to 5 targets) and in
  which at least one target is fetched, \<open>repo_data_list\<close> has one slot per target, in
  input order, and the slot of a failed target holds its owner, its name and its error;
  every such error is sent to \<open>ctx.error\<close>. The call returns a result: its
  \<open>repositories\<close> is the input list, its \<open>metrics\<close> are those computed from the fetched
  targets alone, every key of every row and every ranked name is the name of a fetched
  target, and the rankings are computed from these rows.
\<close>

theorem compare_partial_failure_result:
  assumes "validate env rs = Inr ts"
    and "i < length ts"
    and "is_bag (repo_data_list ts (gather world ts) ! i)"
  shows
    "length (repo_data_list ts (gather world ts)) = length rs
     \<and> (\<forall>j<length ts.
           repo_data_list ts (gather world ts) ! j
             = (case fetch_repository_data (world j) (fst (ts ! j)) (snd (ts ! j)) of
                  Inl e \<Rightarrow> Failed (fst (ts ! j)) (snd (ts ! j)) e
                | Inr d \<Rightarrow> Bag d))
     \<and> (\<forall>a b e. Failed a b e \<in> set (repo_data_list ts (gather world ts)) \<longrightarrow>
           FetchFailed (repo_name a b) e \<in> set (ctx_errors (compare_repositories env rs ms world)))
     \<and> (\<exists>res. outcome (compare_repositories env rs ms world) = Inr res
           \<and> repositories res = rs
           \<and> metrics res
               = comparison_metrics (metrics_to_compare ms)
                   (filter is_bag (repo_data_list ts (gather world ts)))
           \<and> summarize (metrics res) = Inr (summary res)
           \<and> (\<forall>m row k. (m, row) \<in> set (metrics res) \<and> k \<in> fst ` set row \<longrightarrow>
                 (\<exists>d. Bag d \<in> set (repo_data_list ts (gather world ts)) \<and> k = bag_name d))
           \<and> (\<forall>title k. (title, Some k) \<in> set (summary res) \<longrightarrow>
                 (\<exists>d. Bag d \<in> set (repo_data_list ts (gather world ts)) \<and> k = bag_name d)))"
proof -
  let ?slots = "repo_data_list ts (gather world ts)"
  let ?cm = "comparison_metrics (metrics_to_compare ms) ?slots"
  have len: "length ?slots = length ts" by (rule repo_data_list_length)
  have n: "length ts = length rs" using assms(1) by (rule validate_Inr(5))
  obtain d0 where "?slots ! i = Bag d0"
    using assms(3) by (cases "?slots ! i") simp_all
  then have bag: "Bag d0 \<in> set ?slots"
    using assms(2) len by (metis nth_mem)
  obtain sm where sm: "summarize ?cm = Inr sm"
    using summarize_succeeds [OF bag] by blast
  have run: "compare_repositories env rs ms world
           = \<lparr>outcome = Inr \<lparr>repositories = rs, metrics = ?cm, summary = sm\<rparr>,
              fetched = ts, ctx_errors = error_reports ?slots\<rparr>"
    using assms(1) sm by (rule compare_valid_fields)
  have slots: "\<forall>j<length ts. ?slots ! j
             = (case fetch_repository_data (world j) (fst (ts ! j)) (snd (ts ! j)) of
                  Inl e \<Rightarrow> Failed (fst (ts ! j)) (snd (ts ! j)) e
                | Inr d \<Rightarrow> Bag d)"
    by (simp add: repo_data_list_nth slot_of_def)
  have reports: "\<forall>a b e. Failed a b e \<in> set ?slots \<longrightarrow>
           FetchFailed (repo_name a b) e \<in> set (ctx_errors (compare_repositories env rs ms world))"
    using error_reports_member by (simp add: run)
  have rows: "\<forall>m row k. (m, row) \<in> set ?cm \<and> k \<in> fst ` set row \<longrightarrow>
                 (\<exists>d. Bag d \<in> set ?slots \<and> k = bag_name d)"
    using comparison_metrics_entries metric_row_keys by blast
  have leaders: "\<forall>title k. (title, Some k) \<in> set sm \<longrightarrow>
                 (\<exists>d. Bag d \<in> set ?slots \<and> k = bag_name d)"
    using summarize_entries [OF sm] rows by blast
  have only: "?cm = comparison_metrics (metrics_to_compare ms) (filter is_bag ?slots)"
    by (rule comparison_metrics_bags)
  have "\<exists>res. outcome (compare_repositories env rs ms world) = Inr res
           \<and> repositories res = rs
           \<and> metrics res = comparison_metrics (metrics_to_compare ms) (filter is_bag ?slots)
           \<and> summarize (metrics res) = Inr (summary res)
           \<and> (\<forall>m row k. (m, row) \<in> set (metrics res) \<and> k \<in> fst ` set row \<longrightarrow>
                 (\<exists>d. Bag d \<in> set ?slots \<and> k = bag_name d))
           \<and> (\<forall>title k. (title, Some k) \<in> set (summary res) \<longrightarrow>
                 (\<exists>d. Bag d \<in> set ?slots \<and> k = bag_name d))"
    using sm rows leaders only by (simp add: run)
  then show ?thesis using len n slots reports by simp
qed

text \<open>The three targets above: three slots, the first one failed, and a result.\<close>

theorem compare_partial_failure_result_witness:
  "length (repo_data_list [(''a'', ''x''), (''b'', ''y''), (''c'', ''z'')]
             (gather (example_partial not_found) [(''a'', ''x''), (''b'', ''y''), (''c'', ''z'')])) = 3
   \<and> repo_data_list [(''a'', ''x''), (''b'', ''y''), (''c'', ''z'')]
             (gather (example_partial not_found) [(''a'', ''x''), (''b'', ''y''), (''c'', ''z'')]) ! 0
        = Failed ''a'' ''x'' not_found
   \<and> (\<exists>res. outcome (compare_repositories example_env
          [example_ref ''a'' ''x'', example_ref ''b'' ''y'', example_ref ''c'' ''z''] None
          (example_partial not_found)) = Inr res
        \<and> repositories res
            = [example_ref ''a'' ''x'', example_ref ''b'' ''y'', example_ref ''c'' ''z'']
        \<and> summarize (metrics res) = Inr (summary res))"
proof -
  have v: "validate example_env
             [example_ref ''a'' ''x'', example_ref ''b'' ''y'', example_ref ''c'' ''z'']
           = Inr [(''a'', ''x''), (''b'', ''y''), (''c'', ''z'')]"
    by (simp add: validate_def require_env_vars_def check_count_def example_env_def
        example_ref_def)
  have i: "(1::nat) < length [(''a'', ''x''), (''b'', ''y''), (''c'', ''z'')]" by simp
  have b: "is_bag (repo_data_list [(''a'', ''x''), (''b'', ''y''), (''c'', ''z'')]
             (gather (example_partial not_found)
                [(''a'', ''x''), (''b'', ''y''), (''c'', ''z'')]) ! 1)"
    by (simp add: compare_eval example_partial_def Let_def)
  have f: "fetch_repository_data (example_partial not_found 0) ''a'' ''x'' = Inl not_found"
    by (simp add: compare_eval example_partial_def)
  show ?thesis
    using compare_partial_failure_result [OF v i b, of None] f by auto
qed

end
